theory Spec2Isabelle
  imports Complex_Main "HOL-Library.Word"
begin

unbundle bit_operations_syntax

section \<open>JavaScript numbers\<close>

text \<open>
  The components compute on JavaScript numbers. A number is modelled as a finite
  real, one of the two infinities, or NaN. The special values follow IEEE 754 as
  JavaScript exposes it: division by zero gives an infinity or NaN, NaN is
  contagious through arithmetic, \<open>Math.max\<close>, \<open>Math.min\<close> and \<open>Math.round\<close>,
  and \<open>===\<close> is false whenever one side is NaN.

  Two idealisations, both stated here once: finite values are exact reals (no
  rounding error, no overflow of a finite result to an infinity and no underflow
  to zero), and the two zeros are identified (\<open>-0 === 0\<close> holds in JavaScript;
  the components divide only by a width, a height, 2, \<open>step\<close> and
  \<open>gridSize\<close>).

  The code computes in IEEE doubles, so on fractions such as 0.1 or on magnitudes
  near \<open>2 ^ 1024\<close> its values can differ from the exact ones. A statement that
  depends on the value of a rounded product or sum is therefore made only where the
  doubles hold the results exactly (integers below \<open>2 ^ 53\<close> in magnitude), and
  a statement that depends on no overflow or underflow only for magnitudes far from
  both; the hypotheses that do this are named where they are made.
\<close>

datatype jsnum = Fin real | PInf | NInf | NaN

fun jneg :: "jsnum \<Rightarrow> jsnum" where
  "jneg (Fin a) = Fin (- a)"
| "jneg PInf = NInf"
| "jneg NInf = PInf"
| "jneg NaN = NaN"

fun jadd :: "jsnum \<Rightarrow> jsnum \<Rightarrow> jsnum" where
  "jadd NaN _ = NaN"
| "jadd _ NaN = NaN"
| "jadd (Fin a) (Fin b) = Fin (a + b)"
| "jadd PInf NInf = NaN"
| "jadd NInf PInf = NaN"
| "jadd PInf _ = PInf"
| "jadd NInf _ = NInf"
| "jadd (Fin a) PInf = PInf"
| "jadd (Fin a) NInf = NInf"

definition jsub :: "jsnum \<Rightarrow> jsnum \<Rightarrow> jsnum" where
  "jsub a b = jadd a (jneg b)"

text \<open>The infinity with the sign of a nonzero real.\<close>

definition signedInf :: "real \<Rightarrow> jsnum" where
  "signedInf a = (if 0 < a then PInf else NInf)"

fun jmul :: "jsnum \<Rightarrow> jsnum \<Rightarrow> jsnum" where
  "jmul NaN _ = NaN"
| "jmul _ NaN = NaN"
| "jmul (Fin a) (Fin b) = Fin (a * b)"
| "jmul (Fin a) PInf = (if a = 0 then NaN else signedInf a)"
| "jmul (Fin a) NInf = (if a = 0 then NaN else signedInf (- a))"
| "jmul PInf (Fin b) = (if b = 0 then NaN else signedInf b)"
| "jmul NInf (Fin b) = (if b = 0 then NaN else signedInf (- b))"
| "jmul PInf PInf = PInf"
| "jmul NInf NInf = PInf"
| "jmul PInf NInf = NInf"
| "jmul NInf PInf = NInf"

fun jdiv :: "jsnum \<Rightarrow> jsnum \<Rightarrow> jsnum" where
  "jdiv NaN _ = NaN"
| "jdiv _ NaN = NaN"
| "jdiv (Fin a) (Fin b) =
     (if b = 0 then (if a = 0 then NaN else signedInf a) else Fin (a / b))"
| "jdiv (Fin a) PInf = Fin 0"
| "jdiv (Fin a) NInf = Fin 0"
| "jdiv PInf (Fin b) = (if 0 \<le> b then PInf else NInf)"
| "jdiv NInf (Fin b) = (if 0 \<le> b then NInf else PInf)"
| "jdiv PInf PInf = NaN"
| "jdiv PInf NInf = NaN"
| "jdiv NInf PInf = NaN"
| "jdiv NInf NInf = NaN"

text \<open>\<open>Math.max\<close> and \<open>Math.min\<close> of two arguments: NaN if either is NaN.\<close>

fun jmax :: "jsnum \<Rightarrow> jsnum \<Rightarrow> jsnum" where
  "jmax NaN _ = NaN"
| "jmax _ NaN = NaN"
| "jmax PInf _ = PInf"
| "jmax _ PInf = PInf"
| "jmax NInf b = b"
| "jmax a NInf = a"
| "jmax (Fin a) (Fin b) = Fin (max a b)"

fun jmin :: "jsnum \<Rightarrow> jsnum \<Rightarrow> jsnum" where
  "jmin NaN _ = NaN"
| "jmin _ NaN = NaN"
| "jmin NInf _ = NInf"
| "jmin _ NInf = NInf"
| "jmin PInf b = b"
| "jmin a PInf = a"
| "jmin (Fin a) (Fin b) = Fin (min a b)"

text \<open>
  \<open>Math.round\<close> rounds to the nearest integer, a tie going up:
  \<open>Math.round(2.5)\<close> is 3 and \<open>Math.round(-2.5)\<close> is -2. That is
  \<open>\<lfloor>a + 1/2\<rfloor>\<close>, which is how \<^const>\<open>round\<close> is defined.
\<close>

fun jround :: "jsnum \<Rightarrow> jsnum" where
  "jround (Fin a) = Fin (of_int (round a))"
| "jround PInf = PInf"
| "jround NInf = NInf"
| "jround NaN = NaN"

text \<open>Strict equality \<open>===\<close> on numbers.\<close>

fun jseq :: "jsnum \<Rightarrow> jsnum \<Rightarrow> bool" where
  "jseq (Fin a) (Fin b) = (a = b)"
| "jseq PInf PInf = True"
| "jseq NInf NInf = True"
| "jseq _ _ = False"

section \<open>FaceLooker: props and state\<close>

text \<open>
  The props of \<open>FaceLooker\<close> that its logic reads. \<open>onCenter\<close> and \<open>onLooking\<close>
  are optional callbacks, called as \<open>onCenter?.()\<close>: the model records whether
  each was passed, and every call that happens is appended to a log.
\<close>

record props =
  spriteWidth :: jsnum
  spriteHeight :: jsnum
  gridSize :: jsnum
  minValue :: jsnum
  maxValue :: jsnum
  step :: jsnum
  idleTimeout :: jsnum
  onCenter :: bool
  onLooking :: bool

text \<open>The defaults of the destructured props; the sprite's size has none.\<close>

definition defaultProps :: "jsnum \<Rightarrow> jsnum \<Rightarrow> props" where
  "defaultProps w h =
     \<lparr>spriteWidth = w, spriteHeight = h, gridSize = Fin 11, minValue = Fin (-15),
      maxValue = Fin 15, step = Fin 3, idleTimeout = Fin 1200,
      onCenter = True, onLooking = True\<rparr>"

datatype callback = OnCenter | OnLooking

text \<open>\<open>{x, y}\<close>, \<open>{col, row}\<close> and the result of \<open>getBackgroundPosition\<close>.\<close>

record xy =
  x_of :: jsnum
  y_of :: jsnum

record colrow =
  col_of :: jsnum
  row_of :: jsnum

record bgpos =
  bg_x :: jsnum
  bg_y :: jsnum
  bg_col :: jsnum
  bg_row :: jsnum

text \<open>The bounding rectangle of the tracked element, as \<open>getBoundingClientRect\<close> returns it.\<close>

record rect =
  rect_left :: jsnum
  rect_top :: jsnum
  rect_width :: jsnum
  rect_height :: jsnum

text \<open>
  The component's state: the three \<open>useState\<close> cells, the timer ref, and the
  part of the host the component acts on: the timers that are set and have neither
  run nor been cleared, the next timer id \<open>setTimeout\<close> will return, whether the
  window listeners are attached, and the log of callback calls.
\<close>

record state =
  backgroundPosition :: xy
  gridPosition :: colrow
  currentPupil :: xy
  idleTimerRef :: "nat option"
  pendingTimers :: "nat list"
  nextTimerId :: nat
  listening :: bool
  calls :: "callback list"

section \<open>FaceLooker: the functions\<close>

definition getBackgroundPosition :: "props \<Rightarrow> jsnum \<Rightarrow> jsnum \<Rightarrow> bgpos" where
  "getBackgroundPosition P pupilX pupilY =
     (let colIndex = jround (jdiv (jsub pupilX (minValue P)) (step P));
          rowIndex = jround (jdiv (jsub pupilY (minValue P)) (step P));
          clampedCol = jmax (Fin 0) (jmin (jsub (gridSize P) (Fin 1)) colIndex);
          clampedRow = jmax (Fin 0) (jmin (jsub (gridSize P) (Fin 1)) rowIndex);
          actualCellSize = jdiv (spriteWidth P) (gridSize P);
          xOffset = jneg (jmul clampedCol actualCellSize);
          yOffset = jneg (jmul clampedRow actualCellSize)
      in \<lparr>bg_x = xOffset, bg_y = yOffset, bg_col = clampedCol, bg_row = clampedRow\<rparr>)"

definition clamp :: "jsnum \<Rightarrow> jsnum \<Rightarrow> jsnum \<Rightarrow> jsnum" where
  "clamp v lo hi = jmax lo (jmin hi v)"

text \<open>
  \<open>quantizeToGrid\<close> maps the normalized value onto the pupil range, then rounds to
  a multiple of \<open>step\<close> and clamps. The last two lines of its body are
  \<open>snapToGrid\<close> here, so that they can be applied on their own.
\<close>

definition snapToGrid :: "props \<Rightarrow> jsnum \<Rightarrow> jsnum" where
  "snapToGrid P raw =
     (let snapped = jmul (jround (jdiv raw (step P))) (step P)
      in clamp snapped (minValue P) (maxValue P))"

definition quantizeToGrid :: "props \<Rightarrow> jsnum \<Rightarrow> jsnum" where
  "quantizeToGrid P val =
     (let raw = jadd (minValue P)
                  (jdiv (jmul (jadd val (Fin 1)) (jsub (maxValue P) (minValue P))) (Fin 2))
      in snapToGrid P raw)"

text \<open>An optional callback, called if it was passed.\<close>

definition invoke :: "bool \<Rightarrow> callback \<Rightarrow> state \<Rightarrow> state" where
  "invoke passed c s = (if passed then s\<lparr>calls := calls s @ [c]\<rparr> else s)"

definition updatePupilPosition :: "props \<Rightarrow> jsnum \<Rightarrow> jsnum \<Rightarrow> bool \<Rightarrow> state \<Rightarrow> state" where
  "updatePupilPosition P pupilX pupilY triggerCallback s =
     (let pos = getBackgroundPosition P pupilX pupilY;
          s1 = s\<lparr>currentPupil := \<lparr>x_of = pupilX, y_of = pupilY\<rparr>,
                  backgroundPosition := \<lparr>x_of = bg_x pos, y_of = bg_y pos\<rparr>,
                  gridPosition := \<lparr>col_of = bg_col pos, row_of = bg_row pos\<rparr>\<rparr>
      in if triggerCallback
         then (if jseq pupilX (Fin 0) \<and> jseq pupilY (Fin 0)
               then invoke (onCenter P) OnCenter s1
               else invoke (onLooking P) OnLooking s1)
         else s1)"

definition fadeToCenter :: "props \<Rightarrow> state \<Rightarrow> state" where
  "fadeToCenter P s = invoke (onCenter P) OnCenter s"

text \<open>
  \<open>clearTimeout\<close> drops the timer from the host's pending timers; \<open>setTimeout\<close>
  adds a fresh one and returns its id, which the callers store in the ref.
\<close>

definition clearTimeout :: "nat \<Rightarrow> state \<Rightarrow> state" where
  "clearTimeout t s = s\<lparr>pendingTimers := filter (\<lambda>u. u \<noteq> t) (pendingTimers s)\<rparr>"

definition setTimeout :: "state \<Rightarrow> nat \<times> state" where
  "setTimeout s =
     (nextTimerId s,
      s\<lparr>pendingTimers := pendingTimers s @ [nextTimerId s], nextTimerId := Suc (nextTimerId s)\<rparr>)"

text \<open>
  The tail shared by \<open>handlePointerMove\<close> and \<open>handleTouchEnd\<close>: clear the timer
  the ref holds, if any, then set a new one and store it.
\<close>

definition restartIdleTimer :: "state \<Rightarrow> state" where
  "restartIdleTimer s =
     (let s1 = (case idleTimerRef s of None \<Rightarrow> s | Some t \<Rightarrow> clearTimeout t s);
          (t', s2) = setTimeout s1
      in s2\<lparr>idleTimerRef := Some t'\<rparr>)"

text \<open>
  The normalized, clamped coordinates \<open>handlePointerMove\<close> computes from the
  rectangle and the pointer.
\<close>

definition normalizedX :: "rect \<Rightarrow> jsnum \<Rightarrow> jsnum" where
  "normalizedX r clientX =
     (let centerX = jadd (rect_left r) (jdiv (rect_width r) (Fin 2));
          nx = jdiv (jsub clientX centerX) (jdiv (rect_width r) (Fin 2))
      in clamp nx (Fin (-1)) (Fin 1))"

definition normalizedY :: "rect \<Rightarrow> jsnum \<Rightarrow> jsnum" where
  "normalizedY r clientY =
     (let centerY = jadd (rect_top r) (jdiv (rect_height r) (Fin 2));
          ny = jdiv (jsub centerY clientY) (jdiv (rect_height r) (Fin 2))
      in clamp ny (Fin (-1)) (Fin 1))"

text \<open>
  \<open>handlePointerMove\<close>. Its first argument is \<open>containerRef.current\<close> as the
  handler finds it: \<open>None\<close> when the ref is null, else the element's rectangle.
\<close>

definition handlePointerMove :: "props \<Rightarrow> rect option \<Rightarrow> jsnum \<Rightarrow> jsnum \<Rightarrow> state \<Rightarrow> state" where
  "handlePointerMove P container clientX clientY s =
     (case container of
        None \<Rightarrow> s
      | Some r \<Rightarrow>
          (let clampedX = normalizedX r clientX;
               clampedY = normalizedY r clientY;
               pupilX = quantizeToGrid P clampedX;
               pupilY = quantizeToGrid P clampedY
           in restartIdleTimer (updatePupilPosition P pupilX pupilY True s)))"

definition handleTouchEnd :: "state \<Rightarrow> state" where
  "handleTouchEnd s = restartIdleTimer s"

text \<open>The state of the first render, before the effect runs.\<close>

definition initialState :: state where
  "initialState =
     \<lparr>backgroundPosition = \<lparr>x_of = Fin 0, y_of = Fin 0\<rparr>,
      gridPosition = \<lparr>col_of = Fin 0, row_of = Fin 0\<rparr>,
      currentPupil = \<lparr>x_of = Fin 0, y_of = Fin 0\<rparr>,
      idleTimerRef = None, pendingTimers = [], nextTimerId = 0,
      listening = False, calls = []\<rparr>"

text \<open>The effect: the silent initial update, then the listeners are attached.\<close>

definition mount :: "props \<Rightarrow> state" where
  "mount P = (updatePupilPosition P (Fin 0) (Fin 0) False initialState)\<lparr>listening := True\<rparr>"

text \<open>The effect's cleanup.\<close>

definition unmount :: "state \<Rightarrow> state" where
  "unmount s =
     (let s1 = s\<lparr>listening := False\<rparr>
      in case idleTimerRef s1 of None \<Rightarrow> s1 | Some t \<Rightarrow> clearTimeout t s1)"

text \<open>
  What the host can deliver: a mouse move, a touch move with its list of touches,
  a touch end, the firing of a timer, and the teardown. Pointer events carry what
  \<open>containerRef.current\<close> is when they arrive. A listener runs only while it is
  attached; a timer runs only if it is pending, and then it is pending no more.
\<close>

datatype event =
    MouseMove "rect option" jsnum jsnum
  | TouchMove "rect option" "(jsnum \<times> jsnum) list"
  | TouchEnd
  | TimerFired nat
  | Unmount

fun handleEvent :: "props \<Rightarrow> state \<Rightarrow> event \<Rightarrow> state" where
  "handleEvent P s (MouseMove c clientX clientY) =
     (if listening s then handlePointerMove P c clientX clientY s else s)"
| "handleEvent P s (TouchMove c touches) =
     (if listening s
      then (case touches of
              [] \<Rightarrow> s
            | (clientX, clientY) # _ \<Rightarrow> handlePointerMove P c clientX clientY s)
      else s)"
| "handleEvent P s TouchEnd = (if listening s then handleTouchEnd s else s)"
| "handleEvent P s (TimerFired t) =
     (if t \<in> set (pendingTimers s)
      then fadeToCenter P (s\<lparr>pendingTimers := filter (\<lambda>u. u \<noteq> t) (pendingTimers s)\<rparr>)
      else s)"
| "handleEvent P s Unmount = unmount s"

definition run :: "props \<Rightarrow> state \<Rightarrow> event list \<Rightarrow> state" where
  "run P s es = foldl (handleEvent P) s es"

section \<open>FaceLooker: what the properties are stated with\<close>

text \<open>
  The relation the four grid constants are meant to satisfy,
  \<open>gridSize == (maxValue - minValue) / step + 1\<close>, evaluated as JavaScript would.
\<close>

definition consistentGrid :: "props \<Rightarrow> bool" where
  "consistentGrid P =
     jseq (gridSize P) (jadd (jdiv (jsub (maxValue P) (minValue P)) (step P)) (Fin 1))"

text \<open>The grid steps \<open>lo, lo + st, \<dots>, lo + (n - 1) * st\<close>.\<close>

definition gridSteps :: "real \<Rightarrow> real \<Rightarrow> nat \<Rightarrow> real list" where
  "gridSteps lo st n = map (\<lambda>i. lo + real i * st) [0..<n]"

text \<open>
  Every pending timer is the one the ref holds, and none is pending twice. This is
  the invariant behind "one idle timer at a time".
\<close>

definition timersTidy :: "state \<Rightarrow> bool" where
  "timersTidy s =
     (set (pendingTimers s) \<subseteq> set_option (idleTimerRef s) \<and> distinct (pendingTimers s))"

text \<open>The events whose handlers contain a callback call.\<close>

fun mayCall :: "event \<Rightarrow> bool" where
  "mayCall (MouseMove _ _ _) = True"
| "mayCall (TouchMove _ _) = True"
| "mayCall (TimerFired _) = True"
| "mayCall TouchEnd = False"
| "mayCall Unmount = False"

text \<open>
  Magnitudes far from the overflow and the underflow of doubles: at most
  \<open>2 ^ 500\<close>, and for a divisor also at least \<open>1 / 2 ^ 500\<close>.
\<close>

definition ordinary :: "real \<Rightarrow> bool" where
  "ordinary a = (\<bar>a\<bar> \<le> 2 ^ 500)"

definition sizable :: "real \<Rightarrow> bool" where
  "sizable a = (1 / 2 ^ 500 \<le> \<bar>a\<bar> \<and> \<bar>a\<bar> \<le> 2 ^ 500)"

text \<open>
  Concrete inputs: the defaults on a sprite 1100 pixels wide; a grid whose four
  constants satisfy the relation above although \<open>minValue\<close> is no multiple of
  \<open>step\<close>; a 100 by 100 element at the origin; and the all-zero rectangle that
  \<open>getBoundingClientRect\<close> returns for an element that is not laid out.
\<close>

definition stdProps :: props where
  "stdProps = defaultProps (Fin 1100) (Fin 1100)"

definition skewedProps :: props where
  "skewedProps =
     \<lparr>spriteWidth = Fin 600, spriteHeight = Fin 600, gridSize = Fin 6, minValue = Fin (-10),
      maxValue = Fin 10, step = Fin 4, idleTimeout = Fin 1200,
      onCenter = True, onLooking = True\<rparr>"

definition squareRect :: rect where
  "squareRect =
     \<lparr>rect_left = Fin 0, rect_top = Fin 0, rect_width = Fin 100, rect_height = Fin 100\<rparr>"

definition emptyRect :: rect where
  "emptyRect =
     \<lparr>rect_left = Fin 0, rect_top = Fin 0, rect_width = Fin 0, rect_height = Fin 0\<rparr>"

text \<open>Three mouse moves towards the right edge of the square, then a touch end.\<close>

definition quickMoves :: "event list" where
  "quickMoves =
     [MouseMove (Some squareRect) (Fin 90) (Fin 50), MouseMove (Some squareRect) (Fin 80) (Fin 50),
      MouseMove (Some squareRect) (Fin 70) (Fin 50), TouchEnd]"

section \<open>EmailLink and the obfuscation script\<close>

text \<open>
  A JavaScript string is a sequence of UTF-16 code units; \<open>charCodeAt\<close> reads
  one, \<open>String.fromCharCode\<close> makes one, and \<open>^\<close> on two of them is the
  bitwise exclusive or of 16-bit values.
\<close>

type_synonym jsstring = "16 word list"

text \<open>
  \<open>rot13\<close>, the same function in the script and in the click handler. The
  regular expression \<open>/[a-zA-Z]/g\<close> hands each code unit in 65..90 or 97..122
  to the callback and leaves every other one in place.
\<close>

definition rot13Char :: "16 word \<Rightarrow> 16 word" where
  "rot13Char char =
     (let code = unat char in
      if (65 \<le> code \<and> code \<le> 90) \<or> (97 \<le> code \<and> code \<le> 122)
      then (let isUpperCase = (65 \<le> code \<and> code \<le> 90);
                base = (if isUpperCase then 65 else 97)
            in of_nat (((code - base + 13) mod 26) + base))
      else char)"

definition rot13 :: "jsstring \<Rightarrow> jsstring" where
  "rot13 str = map rot13Char str"

text \<open>
  \<open>key.charCodeAt(i % key.length)\<close> as an operand of \<open>^\<close>. For the empty key
  the index is NaN, \<open>charCodeAt\<close> returns NaN, and \<open>^\<close> reads NaN as 0.
\<close>

definition keyCodeAt :: "jsstring \<Rightarrow> nat \<Rightarrow> 16 word" where
  "keyCodeAt key i = (if key = [] then 0 else key ! (i mod length key))"

text \<open>
  The loop that the script runs over the email and the handler over the decoded
  data: \<open>for (let i = 0; i < str.length; i++) acc += fromCharCode(str[i] ^ key[i % n])\<close>.
\<close>

function xorLoop :: "jsstring \<Rightarrow> jsstring \<Rightarrow> nat \<Rightarrow> jsstring \<Rightarrow> jsstring" where
  "xorLoop str key i acc =
     (if i < length str
      then xorLoop str key (i + 1) (acc @ [(str ! i) XOR keyCodeAt key i])
      else acc)"
  by pat_completeness auto
termination
  by (relation "measure (\<lambda>(str, key, i, acc). length str - i)") auto

declare xorLoop.simps [simp del]

subsection \<open>The platform's functions\<close>

text \<open>
  Three functions of the platform, modelled from their specifications.
  \<open>Buffer.from(str, 'binary')\<close> (Node, the latin1 encoding) keeps the low byte
  of each code unit. \<open>buffer.toString('base64')\<close> is the Base64 of RFC 4648 with
  padding. \<open>atob\<close> is the forgiving Base64 decoder of the WHATWG Infra standard:
  it drops ASCII whitespace, drops one or two final \<open>=\<close> if the length is then a
  multiple of four, fails on a length of 1 modulo 4 and on any code unit outside
  the alphabet, and returns the bytes as a string of code units below 256.
\<close>

definition latin1Bytes :: "jsstring \<Rightarrow> 8 word list" where
  "latin1Bytes str = map ucast str"

definition binaryString :: "8 word list \<Rightarrow> jsstring" where
  "binaryString bs = map ucast bs"

definition b64Char :: "nat \<Rightarrow> 16 word" where
  "b64Char n =
     (if n < 26 then of_nat (65 + n)
      else if n < 52 then of_nat (97 + (n - 26))
      else if n < 62 then of_nat (48 + (n - 52))
      else if n = 62 then 43 else 47)"

fun toBase64 :: "8 word list \<Rightarrow> jsstring" where
  "toBase64 [] = []"
| "toBase64 [a] =
     [b64Char (unat a div 4), b64Char (unat a mod 4 * 16), 61, 61]"
| "toBase64 [a, b] =
     [b64Char (unat a div 4), b64Char (unat a mod 4 * 16 + unat b div 16),
      b64Char (unat b mod 16 * 4), 61]"
| "toBase64 (a # b # c # rest) =
     [b64Char (unat a div 4), b64Char (unat a mod 4 * 16 + unat b div 16),
      b64Char (unat b mod 16 * 4 + unat c div 64), b64Char (unat c mod 64)] @ toBase64 rest"

definition isAsciiWhitespace :: "16 word \<Rightarrow> bool" where
  "isAsciiWhitespace c = (c \<in> {9, 10, 12, 13, 32})"

definition b64Index :: "16 word \<Rightarrow> nat option" where
  "b64Index c =
     (let code = unat c in
      if 65 \<le> code \<and> code \<le> 90 then Some (code - 65)
      else if 97 \<le> code \<and> code \<le> 122 then Some (code - 97 + 26)
      else if 48 \<le> code \<and> code \<le> 57 then Some (code - 48 + 52)
      else if code = 43 then Some 62
      else if code = 47 then Some 63
      else None)"

definition stripPadding :: "jsstring \<Rightarrow> jsstring" where
  "stripPadding d =
     (if length d mod 4 = 0 \<and> d \<noteq> [] \<and> last d = 61
      then (if butlast d \<noteq> [] \<and> last (butlast d) = 61 then butlast (butlast d) else butlast d)
      else d)"

fun decodeSextets :: "nat list \<Rightarrow> 8 word list" where
  "decodeSextets (a # b # c # d # rest) =
     [of_nat (a * 4 + b div 16), of_nat (b mod 16 * 16 + c div 4), of_nat (c mod 4 * 64 + d)]
       @ decodeSextets rest"
| "decodeSextets [a, b, c] = [of_nat (a * 4 + b div 16), of_nat (b mod 16 * 16 + c div 4)]"
| "decodeSextets [a, b] = [of_nat (a * 4 + b div 16)]"
| "decodeSextets _ = []"

datatype dom_error = InvalidCharacterError

definition atob :: "jsstring \<Rightarrow> dom_error + jsstring" where
  "atob data =
     (let d = stripPadding (filter (\<lambda>c. \<not> isAsciiWhitespace c) data) in
      if length d mod 4 = 1 then Inl InvalidCharacterError
      else (case those (map b64Index d) of
              None \<Rightarrow> Inl InvalidCharacterError
            | Some sextets \<Rightarrow> Inr (binaryString (decodeSextets sextets))))"

subsection \<open>The click handler and the script\<close>

text \<open>
  \<open>handleClick\<close> returns what it assigns to \<open>window.location.href\<close>:
  \<open>mailto:\<close> followed by the decrypted string. An exception of \<open>atob\<close> leaves
  the handler as it is thrown.
\<close>

definition mailto :: jsstring where
  "mailto = [109, 97, 105, 108, 116, 111, 58]"

definition handleClick :: "jsstring \<Rightarrow> jsstring \<Rightarrow> dom_error + jsstring" where
  "handleClick encryptedData encodedKey =
     (let xorKey = rot13 encodedKey in
      case atob encryptedData of
        Inl e \<Rightarrow> Inl e
      | Inr encryptedBytes \<Rightarrow> Inr (mailto @ xorLoop encryptedBytes xorKey 0 []))"

text \<open>
  The script's three steps, giving the two props it prints:
  \<open>(encodedKey, encryptedData)\<close>.
\<close>

definition obfuscate :: "jsstring \<Rightarrow> jsstring \<Rightarrow> jsstring \<times> jsstring" where
  "obfuscate email key =
     (let encodedKey = rot13 key;
          encrypted = xorLoop email key 0 [];
          encryptedData = toBase64 (latin1Bytes encrypted)
      in (encodedKey, encryptedData))"

text \<open>
  The script as a whole: \<open>if (!email || !key)\<close> prints the usage and exits
  with status 1; a missing argument is \<open>undefined\<close>, an empty one the empty
  string, and both are falsy.
\<close>

datatype cli_error = UsageError

definition obfuscateEmail ::
  "jsstring option \<Rightarrow> jsstring option \<Rightarrow> cli_error + jsstring \<times> jsstring" where
  "obfuscateEmail emailArg keyArg =
     (case (emailArg, keyArg) of
        (Some email, Some key) \<Rightarrow>
          (if email = [] \<or> key = [] then Inl UsageError else Inr (obfuscate email key))
      | _ \<Rightarrow> Inl UsageError)"

subsection \<open>What the round trip is stated with\<close>

text \<open>A string whose code units are all in 0..255.\<close>

definition latin1 :: "jsstring \<Rightarrow> bool" where
  "latin1 str = list_all (\<lambda>c. unat c < 256) str"

text \<open>
  The 6-bit groups and the padding of the Base64 of a byte sequence, apart:
  \<open>toBase64\<close> is their characters followed by the padding.
\<close>

fun sextetsOf :: "8 word list \<Rightarrow> nat list" where
  "sextetsOf [] = []"
| "sextetsOf [a] = [unat a div 4, unat a mod 4 * 16]"
| "sextetsOf [a, b] =
     [unat a div 4, unat a mod 4 * 16 + unat b div 16, unat b mod 16 * 4]"
| "sextetsOf (a # b # c # rest) =
     [unat a div 4, unat a mod 4 * 16 + unat b div 16,
      unat b mod 16 * 4 + unat c div 64, unat c mod 64] @ sextetsOf rest"

fun paddingOf :: "8 word list \<Rightarrow> jsstring" where
  "paddingOf [] = []"
| "paddingOf [a] = [61, 61]"
| "paddingOf [a, b] = [61]"
| "paddingOf (a # b # c # rest) = paddingOf rest"

section \<open>FaceLooker: quantization and the grid\<close>

lemmas model_defs = quantizeToGrid_def snapToGrid_def clamp_def defaultProps_def jsub_def Let_def
  round_def getBackgroundPosition_def run_def mount_def handlePointerMove_def normalizedX_def
  normalizedY_def updatePupilPosition_def invoke_def restartIdleTimer_def initialState_def
  setTimeout_def clearTimeout_def fadeToCenter_def stdProps_def squareRect_def emptyRect_def
  signedInf_def skewedProps_def

text \<open>On finite numbers and a nonzero step the two functions are plain real arithmetic.\<close>

lemma snapToGrid_Fin:
  assumes "minValue P = Fin lo" "maxValue P = Fin hi" "step P = Fin st" "st \<noteq> 0"
  shows "snapToGrid P (Fin a) = Fin (max lo (min hi (of_int (round (a / st)) * st)))"
  using assms by (simp add: snapToGrid_def clamp_def)

lemma quantizeToGrid_Fin:
  assumes "minValue P = Fin lo" "maxValue P = Fin hi" "step P = Fin st" "st \<noteq> 0"
  shows "quantizeToGrid P (Fin v) =
           Fin (max lo (min hi (of_int (round ((lo + (v + 1) * (hi - lo) / 2) / st)) * st)))"
  using assms by (simp add: quantizeToGrid_def snapToGrid_Fin [OF assms] jsub_def)

lemma quantizeToGrid_range:
  assumes "minValue P = Fin lo" "maxValue P = Fin hi" "step P = Fin st" "st \<noteq> 0" "lo \<le> hi"
  shows "\<exists>p. quantizeToGrid P (Fin v) = Fin p \<and> lo \<le> p \<and> p \<le> hi"
  using assms(5) unfolding quantizeToGrid_Fin [OF assms(1-4)] by simp

text \<open>The linear map sends \<open>[-1, 1]\<close> into \<open>[lo, hi]\<close>.\<close>

lemma raw_in_range:
  fixes lo hi v :: real
  assumes "lo \<le> hi" "- 1 \<le> v" "v \<le> 1"
  shows "lo \<le> lo + (v + 1) * (hi - lo) / 2" and "lo + (v + 1) * (hi - lo) / 2 \<le> hi"
proof -
  have a: "0 \<le> (v + 1) * (hi - lo)" using assms by simp
  have "(v + 1) * (hi - lo) \<le> 2 * (hi - lo)"
    using assms by (intro mult_right_mono) auto
  then have b: "(v + 1) * (hi - lo) / 2 \<le> hi - lo" by simp
  show "lo \<le> lo + (v + 1) * (hi - lo) / 2" using a by simp
  show "lo + (v + 1) * (hi - lo) / 2 \<le> hi" using b by simp
qed

text \<open>
  Rounding a value of \<open>[lo, hi]\<close> to a multiple of a positive step and clamping
  lands on a grid step, provided \<open>lo\<close> itself is a multiple of the step and
  \<open>hi\<close> is \<open>n - 1\<close> steps above it.
\<close>

lemma snap_on_grid:
  fixes lo st a :: real and k :: int and n :: nat
  assumes st: "0 < st" and n: "0 < n" and lo: "lo = of_int k * st"
    and hi: "hi = lo + real (n - 1) * st" and a: "lo \<le> a" "a \<le> hi"
  shows "\<exists>i<n. max lo (min hi (of_int (round (a / st)) * st)) = lo + real i * st"
proof -
  let ?j = "round (a / st)"
  have hik: "hi = of_int (k + int (n - 1)) * st" using lo hi by (simp add: algebra_simps)
  have "round (lo / st) \<le> ?j" using a st by (intro round_mono divide_right_mono) auto
  then have kj: "k \<le> ?j" using lo st by simp
  have "?j \<le> round (hi / st)" using a st by (intro round_mono divide_right_mono) auto
  moreover have "hi / st = of_int (k + int (n - 1))" using hik st by simp
  then have "round (hi / st) = k + int (n - 1)" by (simp only: round_of_int)
  ultimately have jk: "?j \<le> k + int (n - 1)" by simp
  define i where "i = nat (?j - k)"
  have i: "i < n" using kj jk n by (simp add: i_def)
  have ji: "?j = k + int i" using kj by (simp add: i_def)
  have eq: "of_int ?j * st = lo + real i * st" by (simp add: ji lo algebra_simps)
  have "lo \<le> of_int ?j * st" unfolding eq using st by simp
  moreover have "of_int ?j * st \<le> hi"
  proof -
    have "real i \<le> real (n - 1)" using i by simp
    then have "real i * st \<le> real (n - 1) * st" using st by (intro mult_right_mono) auto
    then show ?thesis unfolding eq hi by simp
  qed
  ultimately have "max lo (min hi (of_int ?j * st)) = lo + real i * st" using eq by simp
  then show ?thesis using i by blast
qed

text \<open>
  Rounding to a nonzero step is monotone, for a negative step too: the quotient
  then falls as the value rises, and the product with the step rises again.
\<close>

lemma snap_mono:
  fixes st a b :: real
  assumes "st \<noteq> 0" "a \<le> b"
  shows "of_int (round (a / st)) * st \<le> of_int (round (b / st)) * st"
proof (cases "0 < st")
  case True
  then have "round (a / st) \<le> round (b / st)"
    using assms(2) by (intro round_mono divide_right_mono) auto
  then show ?thesis using True by (intro mult_right_mono) auto
next
  case False
  then have neg: "st < 0" using assms(1) by simp
  then have "b / st \<le> a / st" using assms(2) by (intro divide_right_mono_neg) auto
  then have "round (b / st) \<le> round (a / st)" by (rule round_mono)
  then have "(of_int (round (b / st)) :: real) \<le> of_int (round (a / st))" by simp
  then show ?thesis using neg by (intro mult_right_mono_neg) auto
qed

text \<open>
  Rounding to a step and clamping, applied to its own result on \<open>[lo, hi]\<close>,
  changes nothing. Where the rounded value fell outside the range and was clamped
  to an end, rounding that end falls outside on the same side, by monotonicity.
\<close>

lemma snap_idem:
  fixes lo hi st a :: real
  assumes st: "st \<noteq> 0" and lohi: "lo \<le> hi" and a: "lo \<le> a" "a \<le> hi"
  defines "f \<equiv> \<lambda>x. max lo (min hi (of_int (round (x / st)) * st))"
  shows "f (f a) = f a"
proof -
  let ?j = "round (a / st)"
  let ?s = "of_int ?j * st"
  have rs: "round (?s / st) = ?j" using st by simp
  consider "?s < lo" | "lo \<le> ?s" "?s \<le> hi" | "hi < ?s" by linarith
  then show ?thesis
  proof cases
    case 1
    then have fa: "f a = lo" using lohi by (simp add: f_def)
    have "of_int (round (lo / st)) * st \<le> ?s" by (rule snap_mono [OF st a(1)])
    then have "of_int (round (lo / st)) * st < lo" using 1 by linarith
    then have "f lo = lo" using lohi by (simp add: f_def)
    then show ?thesis using fa by simp
  next
    case 2
    then have fa: "f a = ?s" by (simp add: f_def)
    have "f ?s = ?s" using 2 rs by (simp add: f_def)
    then show ?thesis using fa by simp
  next
    case 3
    then have fa: "f a = hi" using lohi by (simp add: f_def)
    have "?s \<le> of_int (round (hi / st)) * st" by (rule snap_mono [OF st a(2)])
    then have "hi < of_int (round (hi / st)) * st" using 3 by linarith
    then have "f hi = hi" using lohi by (simp add: f_def)
    then show ?thesis using fa by simp
  qed
qed

text \<open>
  The relation between the four constants can only hold for a nonzero step: a
  division by zero gives an infinity or NaN, never the finite \<open>gridSize\<close>.
\<close>

lemma consistentGrid_step:
  assumes "minValue P = Fin lo" "maxValue P = Fin hi" "step P = Fin st"
    and "gridSize P = Fin g" "consistentGrid P"
  shows "st \<noteq> 0" and "g = (hi - lo) / st + 1"
proof -
  show "st \<noteq> 0"
  proof
    assume "st = 0"
    then show False
      using assms by (auto simp: consistentGrid_def jsub_def signedInf_def split: if_splits)
  qed
  then show "g = (hi - lo) / st + 1"
    using assms by (simp add: consistentGrid_def jsub_def)
qed

text \<open>
  C4, as stated, fails: the relation between the four constants does not by
  itself put the quantized values on the grid. With \<open>minValue = -10\<close>,
  \<open>maxValue = 10\<close>, \<open>step = 4\<close> and \<open>gridSize = 6\<close> the relation holds, the grid
  steps are -10, -6, -2, 2, 6, 10, and the normalized input 0 quantizes to 0:
  \<open>quantizeToGrid\<close> rounds to multiples of \<open>step\<close> counted from 0, not from
  \<open>minValue\<close>.
\<close>

theorem quantize_off_grid:
  "consistentGrid skewedProps \<and> quantizeToGrid skewedProps (Fin 0) = Fin 0
   \<and> gridSteps (-10) 4 6 = [-10, -6, -2, 2, 6, 10]
   \<and> Fin 0 \<notin> Fin ` set (gridSteps (-10) 4 6)"
  by (simp add: consistentGrid_def model_defs gridSteps_def upt_rec image_iff)

text \<open>
  C4, amended: for every normalized input \<open>v\<close> in \<open>[-1, 1]\<close>, if
  \<open>minValue\<close> and \<open>step\<close> are integers, \<open>minValue\<close> is an integer multiple
  of \<open>step\<close>, \<open>gridSize\<close> is a positive integer with
  \<open>gridSize == (maxValue - minValue) / step + 1\<close>, and the three pupil constants
  are at most \<open>2 ^ 26\<close> in magnitude (all of which the defaults -15, 15, 3, 11
  satisfy), then \<open>quantizeToGrid v\<close> is one of
  \<open>minValue, minValue + step, \<dots>, maxValue\<close>. The step may be negative; it
  cannot be zero under the relation. The integers and their bound are where the
  products and sums that decide the value are exact in doubles as well.
\<close>

theorem quantize_on_grid:
  assumes "minValue P = Fin (of_int a)" "maxValue P = Fin hi" "step P = Fin (of_int b)"
    and "gridSize P = Fin (real n)" "0 < n" and "consistentGrid P"
    and "b dvd a"
    and "\<bar>a\<bar> \<le> 2 ^ 26" "\<bar>b\<bar> \<le> 2 ^ 26" "\<bar>hi\<bar> \<le> 2 ^ 26"
    and "- 1 \<le> v" "v \<le> 1"
  shows "quantizeToGrid P (Fin v) \<in> Fin ` set (gridSteps (of_int a) (of_int b) n)"
proof -
  let ?lo = "of_int a :: real" and ?st = "of_int b :: real"
  have st: "?st \<noteq> 0" and rel: "real n = (hi - ?lo) / ?st + 1"
    using consistentGrid_step [OF assms(1-4) assms(6)] by simp_all
  have q: "quantizeToGrid P (Fin v) = Fin (max ?lo (min hi
      (of_int (round ((?lo + (v + 1) * (hi - ?lo) / 2) / ?st)) * ?st)))"
    by (rule quantizeToGrid_Fin [OF assms(1-3) st])
  have span: "hi - ?lo = (real n - 1) * ?st" using rel st by (simp add: field_simps)
  have "\<exists>i<n. max ?lo (min hi
      (of_int (round ((?lo + (v + 1) * (hi - ?lo) / 2) / ?st)) * ?st)) = ?lo + real i * ?st"
  proof (cases "0 < ?st")
    case True
    have hi: "hi = ?lo + real (n - 1) * ?st"
      using span \<open>0 < n\<close> by (simp add: of_nat_diff algebra_simps)
    then have lohi: "?lo \<le> hi" using True by simp
    obtain k where k: "a = k * b" using \<open>b dvd a\<close> by (auto simp: dvd_def mult.commute)
    have lo: "?lo = of_int k * ?st" by (simp add: k)
    show ?thesis
      using snap_on_grid [OF True \<open>0 < n\<close> lo hi]
        raw_in_range [OF lohi \<open>- 1 \<le> v\<close> \<open>v \<le> 1\<close>] by blast
  next
    case False
    then have neg: "?st < 0" using st by linarith
    have "0 \<le> real n - 1" using \<open>0 < n\<close> by simp
    then have "(real n - 1) * ?st \<le> 0" using neg by (simp add: mult_nonneg_nonpos)
    then have "hi \<le> ?lo" using span by linarith
    then have "max ?lo (min hi
      (of_int (round ((?lo + (v + 1) * (hi - ?lo) / 2) / ?st)) * ?st)) = ?lo + real 0 * ?st"
      by simp
    then show ?thesis using \<open>0 < n\<close> by blast
  qed
  then obtain i where "i < n" and "quantizeToGrid P (Fin v) = Fin (?lo + real i * ?st)"
    unfolding q by blast
  then show ?thesis by (force simp: gridSteps_def)
qed

text \<open>The defaults, at the normalized input 1/2.\<close>

theorem quantize_on_grid_witness:
  "quantizeToGrid stdProps (Fin (1/2)) \<in> Fin ` set (gridSteps (- 15) 3 11)"
  using quantize_on_grid [where P = stdProps and a = "- 15" and b = 3 and hi = 15 and n = 11
      and v = "1/2"]
  by (simp add: stdProps_def defaultProps_def consistentGrid_def jsub_def)

subsection \<open>The grid cell\<close>

lemma clampIndex_Fin:
  assumes "1 \<le> g" "c \<noteq> NaN"
  shows "\<exists>i. jmax (Fin 0) (jmin (Fin (g - 1)) c) = Fin i \<and> 0 \<le> i \<and> i \<le> g - 1"
  using assms by (cases c) auto

lemma index_not_NaN:
  assumes "st \<noteq> 0"
  shows "jround (jdiv (jsub (Fin p) (Fin lo)) (Fin st)) \<noteq> NaN"
  using assms by (simp add: jsub_def)

text \<open>
  C5: for every pair of real pupil values, inside \<open>[minValue, maxValue]\<close> or not,
  the column and the row that \<open>getBackgroundPosition\<close> computes are numbers
  between 0 and \<open>gridSize - 1\<close>. The grid is any with at least one cell and a
  nonzero step.
\<close>

theorem cell_in_grid:
  assumes "gridSize P = Fin g" "1 \<le> g" "minValue P = Fin lo" "step P = Fin st" "st \<noteq> 0"
  shows "\<exists>c r. bg_col (getBackgroundPosition P (Fin pupilX) (Fin pupilY)) = Fin c
             \<and> bg_row (getBackgroundPosition P (Fin pupilX) (Fin pupilY)) = Fin r
             \<and> 0 \<le> c \<and> c \<le> g - 1 \<and> 0 \<le> r \<and> r \<le> g - 1"
proof -
  obtain c where c: "jmax (Fin 0) (jmin (Fin (g - 1))
      (jround (jdiv (jsub (Fin pupilX) (Fin lo)) (Fin st)))) = Fin c" "0 \<le> c" "c \<le> g - 1"
    using clampIndex_Fin [OF \<open>1 \<le> g\<close> index_not_NaN [OF \<open>st \<noteq> 0\<close>]] by blast
  obtain r where r: "jmax (Fin 0) (jmin (Fin (g - 1))
      (jround (jdiv (jsub (Fin pupilY) (Fin lo)) (Fin st)))) = Fin r" "0 \<le> r" "r \<le> g - 1"
    using clampIndex_Fin [OF \<open>1 \<le> g\<close> index_not_NaN [OF \<open>st \<noteq> 0\<close>]] by blast
  have g1: "jsub (Fin g) (Fin 1) = Fin (g - 1)" by (simp add: jsub_def)
  have "bg_col (getBackgroundPosition P (Fin pupilX) (Fin pupilY)) = Fin c"
    using assms c(1) by (simp add: getBackgroundPosition_def Let_def g1)
  moreover have "bg_row (getBackgroundPosition P (Fin pupilX) (Fin pupilY)) = Fin r"
    using assms r(1) by (simp add: getBackgroundPosition_def Let_def g1)
  ultimately show ?thesis using c r by blast
qed

text \<open>The defaults, at a pupil far right of the range and one between two steps.\<close>

theorem cell_in_grid_witness:
  "\<exists>c r. bg_col (getBackgroundPosition stdProps (Fin 100) (Fin (-7/2))) = Fin c
        \<and> bg_row (getBackgroundPosition stdProps (Fin 100) (Fin (-7/2))) = Fin r
        \<and> 0 \<le> c \<and> c \<le> 11 - 1 \<and> 0 \<le> r \<and> r \<le> 11 - 1"
  by (rule cell_in_grid [of _ 11 "-15" 3]) (simp_all add: stdProps_def defaultProps_def)

text \<open>
  C6: with the defaults, the normalized input 1 quantizes to 15 on each axis,
  the pupil (15, 15) resolves to the cell (10, 10), a sprite 1100 wide has cells of
  size 100, and the render offset is (-1000, -1000). For every grid and pupil the
  offset is \<open>(-col * cellSize, -row * cellSize)\<close> with
  \<open>cellSize = spriteWidth / gridSize\<close>.
\<close>

theorem far_corner_scenario:
  "quantizeToGrid (defaultProps (Fin 1100) h) (Fin 1) = Fin 15
   \<and> getBackgroundPosition (defaultProps (Fin 1100) h) (Fin 15) (Fin 15)
       = \<lparr>bg_x = Fin (- 1000), bg_y = Fin (- 1000), bg_col = Fin 10, bg_row = Fin 10\<rparr>
   \<and> jdiv (spriteWidth (defaultProps (Fin 1100) h)) (gridSize (defaultProps (Fin 1100) h))
       = Fin 100
   \<and> bg_x (getBackgroundPosition P pupilX pupilY)
       = jneg (jmul (bg_col (getBackgroundPosition P pupilX pupilY))
                    (jdiv (spriteWidth P) (gridSize P)))
   \<and> bg_y (getBackgroundPosition P pupilX pupilY)
       = jneg (jmul (bg_row (getBackgroundPosition P pupilX pupilY))
                    (jdiv (spriteWidth P) (gridSize P)))"
  by (simp add: model_defs)

text \<open>
  C7: for normalized inputs in \<open>[-1, 1]\<close>, rounding to the step and clamping
  again leaves a quantized value as it is, and so the grid cell and offset
  computed from the re-quantized pupil are those computed from the pupil. The grid
  is any whose three pupil constants are integers of magnitude at most \<open>2 ^ 26\<close>
  with \<open>minValue \<le> maxValue\<close> and a nonzero step, as the defaults are; on these
  the quantized value is an integer that doubles hold exactly.
\<close>

theorem snap_idempotent:
  assumes "minValue P = Fin (of_int a)" "maxValue P = Fin (of_int c)" "step P = Fin (of_int b)"
    and "b \<noteq> 0" "a \<le> c"
    and "\<bar>a\<bar> \<le> 2 ^ 26" "\<bar>b\<bar> \<le> 2 ^ 26" "\<bar>c\<bar> \<le> 2 ^ 26"
    and "- 1 \<le> vx" "vx \<le> 1" and "- 1 \<le> vy" "vy \<le> 1"
  shows "snapToGrid P (quantizeToGrid P (Fin vx)) = quantizeToGrid P (Fin vx)
       \<and> getBackgroundPosition P (snapToGrid P (quantizeToGrid P (Fin vx)))
            (snapToGrid P (quantizeToGrid P (Fin vy)))
          = getBackgroundPosition P (quantizeToGrid P (Fin vx)) (quantizeToGrid P (Fin vy))"
proof -
  let ?lo = "of_int a :: real" and ?hi = "of_int c :: real" and ?st = "of_int b :: real"
  have st: "?st \<noteq> 0" using \<open>b \<noteq> 0\<close> by simp
  have lohi: "?lo \<le> ?hi" using \<open>a \<le> c\<close> by simp
  have idem: "snapToGrid P (quantizeToGrid P (Fin v)) = quantizeToGrid P (Fin v)"
    if v: "- 1 \<le> v" "v \<le> 1" for v
  proof -
    let ?raw = "?lo + (v + 1) * (?hi - ?lo) / 2"
    have q: "quantizeToGrid P (Fin v) = snapToGrid P (Fin ?raw)"
      using assms(1-3) by (simp add: quantizeToGrid_def jsub_def)
    show ?thesis
      unfolding q snapToGrid_Fin [OF assms(1-3) st]
      using snap_idem [OF st lohi raw_in_range [OF lohi v]]
      by simp
  qed
  show ?thesis
    using idem [OF \<open>- 1 \<le> vx\<close> \<open>vx \<le> 1\<close>] idem [OF \<open>- 1 \<le> vy\<close> \<open>vy \<le> 1\<close>] by simp
qed

text \<open>The defaults, at the normalized inputs 1/3 and -1.\<close>

theorem snap_idempotent_witness:
  "snapToGrid stdProps (quantizeToGrid stdProps (Fin (1/3))) = quantizeToGrid stdProps (Fin (1/3))
   \<and> getBackgroundPosition stdProps
        (snapToGrid stdProps (quantizeToGrid stdProps (Fin (1/3))))
        (snapToGrid stdProps (quantizeToGrid stdProps (Fin (-1))))
     = getBackgroundPosition stdProps
        (quantizeToGrid stdProps (Fin (1/3))) (quantizeToGrid stdProps (Fin (-1)))"
  by (rule snap_idempotent [of _ "-15" 15 3]) (simp_all add: stdProps_def defaultProps_def)

section \<open>FaceLooker: the idle timer and the callbacks\<close>

text \<open>What each function leaves alone.\<close>

lemma invoke_fields [simp]:
  "pendingTimers (invoke b c s) = pendingTimers s"
  "idleTimerRef (invoke b c s) = idleTimerRef s"
  "nextTimerId (invoke b c s) = nextTimerId s"
  "listening (invoke b c s) = listening s"
  "currentPupil (invoke b c s) = currentPupil s"
  "gridPosition (invoke b c s) = gridPosition s"
  "backgroundPosition (invoke b c s) = backgroundPosition s"
  "calls (invoke b c s) = (if b then calls s @ [c] else calls s)"
  by (simp_all add: invoke_def)

lemma updatePupilPosition_fields [simp]:
  "pendingTimers (updatePupilPosition P px py b s) = pendingTimers s"
  "idleTimerRef (updatePupilPosition P px py b s) = idleTimerRef s"
  "nextTimerId (updatePupilPosition P px py b s) = nextTimerId s"
  "listening (updatePupilPosition P px py b s) = listening s"
  "currentPupil (updatePupilPosition P px py b s) = \<lparr>x_of = px, y_of = py\<rparr>"
  by (simp_all add: updatePupilPosition_def Let_def)

lemma updatePupilPosition_calls:
  "calls (updatePupilPosition P px py b s) =
     (if b then
        (if jseq px (Fin 0) \<and> jseq py (Fin 0)
         then (if onCenter P then calls s @ [OnCenter] else calls s)
         else (if onLooking P then calls s @ [OnLooking] else calls s))
      else calls s)"
  by (simp add: updatePupilPosition_def Let_def)

lemma restartIdleTimer_fields [simp]:
  "calls (restartIdleTimer s) = calls s"
  "listening (restartIdleTimer s) = listening s"
  "currentPupil (restartIdleTimer s) = currentPupil s"
  "gridPosition (restartIdleTimer s) = gridPosition s"
  "backgroundPosition (restartIdleTimer s) = backgroundPosition s"
  "idleTimerRef (restartIdleTimer s) = Some (nextTimerId s)"
  by (simp_all add: restartIdleTimer_def setTimeout_def clearTimeout_def Let_def split: option.split)

lemma restartIdleTimer_pending:
  "pendingTimers (restartIdleTimer s) =
     (case idleTimerRef s of None \<Rightarrow> pendingTimers s
      | Some t \<Rightarrow> filter (\<lambda>u. u \<noteq> t) (pendingTimers s)) @ [nextTimerId s]"
  by (simp add: restartIdleTimer_def setTimeout_def clearTimeout_def Let_def split: option.split)

text \<open>
  Under the invariant, restarting the idle timer leaves exactly the new timer
  pending: the one the ref held is cleared, and no other was pending.
\<close>

lemma filter_out_only:
  assumes "set xs \<subseteq> {t}"
  shows "filter (\<lambda>u. u \<noteq> t) xs = []"
  using assms by (induction xs) auto

lemma restartIdleTimer_single:
  assumes "timersTidy s"
  shows "pendingTimers (restartIdleTimer s) = [nextTimerId s]"
proof (cases "idleTimerRef s")
  case None
  then have "pendingTimers s = []" using assms by (simp add: timersTidy_def)
  then show ?thesis using None by (simp add: restartIdleTimer_pending)
next
  case (Some t)
  then have "set (pendingTimers s) \<subseteq> {t}" using assms by (simp add: timersTidy_def)
  then show ?thesis using Some by (simp add: restartIdleTimer_pending filter_out_only)
qed

lemma timersTidy_restart:
  assumes "timersTidy s"
  shows "timersTidy (restartIdleTimer s)"
  unfolding timersTidy_def using restartIdleTimer_single [OF assms] by simp

text \<open>Every handler keeps the invariant.\<close>

lemma timersTidy_cong:
  assumes "pendingTimers s' = pendingTimers s" "idleTimerRef s' = idleTimerRef s" "timersTidy s"
  shows "timersTidy s'"
  using assms by (simp add: timersTidy_def)

lemma timersTidy_handlePointerMove:
  assumes "timersTidy s"
  shows "timersTidy (handlePointerMove P c cx cy s)"
proof (cases c)
  case None
  then show ?thesis using assms by (simp add: handlePointerMove_def)
next
  case (Some r)
  have "timersTidy (updatePupilPosition P px py True s)" for px py
    by (rule timersTidy_cong [OF _ _ assms]) simp_all
  then show ?thesis using Some by (simp add: handlePointerMove_def Let_def timersTidy_restart)
qed

lemma timersTidy_filter:
  assumes "timersTidy s"
  shows "timersTidy (s\<lparr>pendingTimers := filter Q (pendingTimers s)\<rparr>)"
  using assms by (auto simp: timersTidy_def)

lemma timersTidy_handleEvent:
  assumes "timersTidy s"
  shows "timersTidy (handleEvent P s e)"
proof (cases e)
  case (MouseMove c cx cy)
  then show ?thesis using assms by (simp add: timersTidy_handlePointerMove)
next
  case (TouchMove c ts)
  then show ?thesis using assms
    by (simp add: timersTidy_handlePointerMove split: list.split)
next
  case TouchEnd
  then show ?thesis using assms by (simp add: handleTouchEnd_def timersTidy_restart)
next
  case (TimerFired t)
  have "timersTidy (fadeToCenter P (s\<lparr>pendingTimers := filter (\<lambda>u. u \<noteq> t) (pendingTimers s)\<rparr>))"
    by (rule timersTidy_cong [OF _ _ timersTidy_filter [OF assms]])
       (simp_all add: fadeToCenter_def)
  then show ?thesis using TimerFired assms by simp
next
  case Unmount
  have "timersTidy (s\<lparr>listening := False\<rparr>)"
    using assms by (simp add: timersTidy_def)
  then show ?thesis using Unmount
    by (auto simp: unmount_def clearTimeout_def Let_def timersTidy_def split: option.split)
qed

lemma timersTidy_run:
  assumes "timersTidy s"
  shows "timersTidy (run P s es)"
  using assms unfolding run_def
  by (induction es arbitrary: s) (simp_all add: timersTidy_handleEvent)

lemma timersTidy_mount: "timersTidy (mount P)"
  by (simp add: mount_def timersTidy_def initialState_def)

lemma timersTidy_length:
  assumes "timersTidy s"
  shows "length (pendingTimers s) \<le> 1"
proof -
  have "card (set (pendingTimers s)) \<le> card (set_option (idleTimerRef s))"
    using assms by (intro card_mono) (auto simp: timersTidy_def)
  also have "\<dots> \<le> 1" by (cases "idleTimerRef s") simp_all
  finally show ?thesis using assms by (simp add: timersTidy_def distinct_card)
qed

text \<open>
  A timer that runs leaves the pending list and adds at most one call, so the
  number of calls plus the number of pending timers never grows while only timers
  fire.
\<close>

lemma length_filter_out:
  assumes "t \<in> set xs"
  shows "length (filter (\<lambda>u. u \<noteq> t) xs) < length xs"
  using assms by (induction xs) (auto simp: less_Suc_eq_le)

lemma timer_potential:
  "length (calls (run P s (map TimerFired ts))) + length (pendingTimers (run P s (map TimerFired ts)))
     \<le> length (calls s) + length (pendingTimers s)"
proof (induction ts arbitrary: s)
  case Nil
  then show ?case by (simp add: run_def)
next
  case (Cons t ts)
  let ?s' = "handleEvent P s (TimerFired t)"
  have step: "length (calls ?s') + length (pendingTimers ?s') \<le> length (calls s) + length (pendingTimers s)"
  proof (cases "t \<in> set (pendingTimers s)")
    case True
    then show ?thesis
      using length_filter_out [OF True] by (simp add: fadeToCenter_def)
  next
    case False
    then show ?thesis by simp
  qed
  have "run P s (map TimerFired (t # ts)) = run P ?s' (map TimerFired ts)"
    by (simp add: run_def)
  then show ?case using Cons.IH [of ?s'] step by simp
qed

subsection \<open>Callbacks on pointer events\<close>

text \<open>
  C1, as stated, fails: the callbacks are not kept for transitions. From the
  mounted component, a move to the centre of the element calls \<open>onCenter\<close>
  although the pupil was (0, 0) already; a second move to the same point calls it
  again; and two moves that both resolve to a pupil away from the centre call
  \<open>onLooking\<close> twice.
\<close>

theorem repeated_callbacks:
  "calls (run stdProps (mount stdProps)
            [MouseMove (Some squareRect) (Fin 50) (Fin 50)]) = [OnCenter]
   \<and> currentPupil (run stdProps (mount stdProps)
            [MouseMove (Some squareRect) (Fin 50) (Fin 50)]) = \<lparr>x_of = Fin 0, y_of = Fin 0\<rparr>
   \<and> calls (run stdProps (mount stdProps)
            [MouseMove (Some squareRect) (Fin 50) (Fin 50),
             MouseMove (Some squareRect) (Fin 50) (Fin 50)]) = [OnCenter, OnCenter]
   \<and> calls (run stdProps (mount stdProps)
            [MouseMove (Some squareRect) (Fin 90) (Fin 50),
             MouseMove (Some squareRect) (Fin 95) (Fin 50)]) = [OnLooking, OnLooking]"
  by (simp add: model_defs)

text \<open>
  C1, amended: every mouse move, and every touch move with at least one touch,
  that finds the element attached calls exactly one callback, whatever the state
  before: \<open>onCenter\<close> when the resolved pupil is exactly (0, 0), \<open>onLooking\<close>
  otherwise. Successive events that resolve to the same state therefore repeat
  the same callback, once per event. (Both callbacks are taken as passed.)
\<close>

theorem callback_every_move:
  assumes "listening s" "onCenter P" "onLooking P"
  shows "calls (handleEvent P s (MouseMove (Some r) clientX clientY))
           = calls s @ [if jseq (quantizeToGrid P (normalizedX r clientX)) (Fin 0)
                           \<and> jseq (quantizeToGrid P (normalizedY r clientY)) (Fin 0)
                        then OnCenter else OnLooking]
       \<and> calls (handleEvent P s (TouchMove (Some r) ((clientX, clientY) # touches)))
           = calls (handleEvent P s (MouseMove (Some r) clientX clientY))"
  using assms by (simp add: handlePointerMove_def Let_def updatePupilPosition_calls)

text \<open>After a move towards the right edge, a second such move calls \<open>onLooking\<close> again.\<close>

theorem callback_every_move_witness:
  "calls (handleEvent stdProps
            (run stdProps (mount stdProps) [MouseMove (Some squareRect) (Fin 90) (Fin 50)])
            (MouseMove (Some squareRect) (Fin 95) (Fin 50)))
     = [OnLooking, OnLooking]"
proof -
  let ?s = "run stdProps (mount stdProps) [MouseMove (Some squareRect) (Fin 90) (Fin 50)]"
  have l: "listening ?s" and c: "onCenter stdProps" and k: "onLooking stdProps"
    by (simp_all add: model_defs)
  have "calls ?s = [OnLooking]" by (simp add: model_defs)
  moreover have "quantizeToGrid stdProps (normalizedX squareRect (Fin 95)) = Fin 15"
    by (simp add: model_defs)
  ultimately show ?thesis
    using callback_every_move [OF l c k, of squareRect "Fin 95" "Fin 50"] by simp
qed

subsection \<open>The idle timer fires\<close>

text \<open>
  C2, as stated, fails in its middle part: the timer's callback is
  \<open>fadeToCenter\<close>, which calls \<open>onCenter\<close> and updates no position. After a
  move to the right edge (timer 0 pending) and the firing of that timer, the pupil
  is still (15, 0) and the grid cell still (10, 5).
\<close>

theorem timer_keeps_pupil:
  "pendingTimers (run stdProps (mount stdProps)
      [MouseMove (Some squareRect) (Fin 100) (Fin 50)]) = [0]
   \<and> currentPupil (run stdProps (mount stdProps)
      [MouseMove (Some squareRect) (Fin 100) (Fin 50), TimerFired 0])
       = \<lparr>x_of = Fin 15, y_of = Fin 0\<rparr>
   \<and> gridPosition (run stdProps (mount stdProps)
      [MouseMove (Some squareRect) (Fin 100) (Fin 50), TimerFired 0])
       = \<lparr>col_of = Fin 10, row_of = Fin 5\<rparr>
   \<and> calls (run stdProps (mount stdProps)
      [MouseMove (Some squareRect) (Fin 100) (Fin 50), TimerFired 0]) = [OnLooking, OnCenter]"
  by (simp add: model_defs)

text \<open>
  C2, amended: when a pending idle timer fires, \<open>onCenter\<close> is called exactly
  once (if it was passed), whatever the last pointer position, and the pupil,
  the grid cell and the background position stay as the last pointer event left
  them. The timer is then no longer pending, so it cannot fire a second time.
\<close>

theorem timer_fires_onCenter_once:
  assumes "t \<in> set (pendingTimers s)" "onCenter P"
  shows "calls (handleEvent P s (TimerFired t)) = calls s @ [OnCenter]
       \<and> currentPupil (handleEvent P s (TimerFired t)) = currentPupil s
       \<and> gridPosition (handleEvent P s (TimerFired t)) = gridPosition s
       \<and> backgroundPosition (handleEvent P s (TimerFired t)) = backgroundPosition s
       \<and> t \<notin> set (pendingTimers (handleEvent P s (TimerFired t)))
       \<and> handleEvent P (handleEvent P s (TimerFired t)) (TimerFired t)
            = handleEvent P s (TimerFired t)"
  using assms by (simp add: fadeToCenter_def)

text \<open>The timer set by a move to the right edge.\<close>

theorem timer_fires_onCenter_once_witness:
  "calls (handleEvent stdProps
      (run stdProps (mount stdProps) [MouseMove (Some squareRect) (Fin 100) (Fin 50)])
      (TimerFired 0))
     = [OnLooking, OnCenter]
   \<and> currentPupil (handleEvent stdProps
      (run stdProps (mount stdProps) [MouseMove (Some squareRect) (Fin 100) (Fin 50)])
      (TimerFired 0))
     = \<lparr>x_of = Fin 15, y_of = Fin 0\<rparr>"
proof -
  let ?s = "run stdProps (mount stdProps) [MouseMove (Some squareRect) (Fin 100) (Fin 50)]"
  have p: "0 \<in> set (pendingTimers ?s)" and c: "onCenter stdProps"
    by (simp_all add: model_defs)
  have "calls ?s = [OnLooking]" and "currentPupil ?s = \<lparr>x_of = Fin 15, y_of = Fin 0\<rparr>"
    by (simp_all add: model_defs)
  then show ?thesis using timer_fires_onCenter_once [OF p c] by simp
qed

subsection \<open>One idle timer\<close>

text \<open>
  C8: in every state the component reaches from its mount, whatever the events,
  at most one idle timer is pending; restarting the idle timer there (what a
  pointer move, a touch move and a touch end do) leaves only the new timer
  pending; and however the timers then fire, with no further pointer or touch
  event, at most one more callback call is made.
\<close>

theorem single_idle_timer:
  "length (pendingTimers (run P (mount P) es)) \<le> 1
   \<and> pendingTimers (restartIdleTimer (run P (mount P) es)) = [nextTimerId (run P (mount P) es)]
   \<and> length (calls (run P (run P (mount P) es) (map TimerFired ts)))
        \<le> length (calls (run P (mount P) es)) + 1"
proof -
  let ?s = "run P (mount P) es"
  have tidy: "timersTidy ?s" by (rule timersTidy_run [OF timersTidy_mount])
  have one: "length (pendingTimers ?s) \<le> 1" by (rule timersTidy_length [OF tidy])
  have "length (calls (run P ?s (map TimerFired ts))) \<le> length (calls ?s) + length (pendingTimers ?s)"
    using timer_potential [of P ?s ts] by simp
  then have "length (calls (run P ?s (map TimerFired ts))) \<le> length (calls ?s) + 1"
    using one by simp
  then show ?thesis using one restartIdleTimer_single [OF tidy] by simp
qed

text \<open>
  Three quick moves and a touch end leave the fourth timer alone pending; of two
  firings then delivered, that of timer 3 calls \<open>onCenter\<close> and that of the
  cancelled timer 2 does nothing.
\<close>

theorem single_idle_timer_witness:
  "pendingTimers (run stdProps (mount stdProps) quickMoves) = [3]
   \<and> calls (run stdProps (mount stdProps) quickMoves) = [OnLooking, OnLooking, OnLooking]
   \<and> calls (run stdProps (run stdProps (mount stdProps) quickMoves) (map TimerFired [3, 2]))
       = [OnLooking, OnLooking, OnLooking, OnCenter]
   \<and> length (calls (run stdProps (run stdProps (mount stdProps) quickMoves)
                  (map TimerFired [3, 2])))
       \<le> length (calls (run stdProps (mount stdProps) quickMoves)) + 1"
proof -
  have a: "pendingTimers (run stdProps (mount stdProps) quickMoves) = [3]"
    by (simp add: model_defs quickMoves_def handleTouchEnd_def)
  have b: "calls (run stdProps (mount stdProps) quickMoves) = [OnLooking, OnLooking, OnLooking]"
    by (simp add: model_defs quickMoves_def handleTouchEnd_def)
  have c: "calls (run stdProps (run stdProps (mount stdProps) quickMoves) (map TimerFired [3, 2]))
       = [OnLooking, OnLooking, OnLooking, OnCenter]"
    by (simp add: model_defs quickMoves_def handleTouchEnd_def)
  show ?thesis using a b c single_idle_timer [of stdProps quickMoves "[3, 2]"] by blast
qed

subsection \<open>The mount is silent\<close>

lemma handleEvent_calls_le:
  "length (calls (handleEvent P s e)) \<le> length (calls s) + (if mayCall e then 1 else 0)"
proof (cases e)
  case (MouseMove c cx cy)
  then show ?thesis
    by (cases c) (simp_all add: handlePointerMove_def Let_def updatePupilPosition_calls)
next
  case (TouchMove c ts)
  then show ?thesis
    by (cases c) (simp_all add: handlePointerMove_def Let_def updatePupilPosition_calls split: list.split)
next
  case TouchEnd
  then show ?thesis by (simp add: handleTouchEnd_def)
next
  case (TimerFired t)
  then show ?thesis by (simp add: fadeToCenter_def)
next
  case Unmount
  then show ?thesis by (simp add: unmount_def clearTimeout_def Let_def split: option.split)
qed

lemma run_calls_le:
  "length (calls (run P s es)) \<le> length (calls s) + length (filter mayCall es)"
proof (induction es arbitrary: s)
  case Nil
  then show ?case by (simp add: run_def)
next
  case (Cons e es)
  have "run P s (e # es) = run P (handleEvent P s e) es" by (simp add: run_def)
  then show ?case
    using Cons.IH [of "handleEvent P s e"] handleEvent_calls_le [of P s e]
    by (cases "mayCall e") simp_all
qed

text \<open>
  C9: the mount sets the pupil to (0, 0), with the grid cell and offset that
  \<open>getBackgroundPosition\<close> gives for it (the cell (5, 5) and the offset
  (-500, -500) with the defaults on a sprite 1100 wide), and calls neither
  callback. Afterwards there are never more calls than there have been mouse
  moves, touch moves and timer firings: a first call needs one of them.
\<close>

theorem silent_mount:
  "calls (mount P) = []
   \<and> currentPupil (mount P) = \<lparr>x_of = Fin 0, y_of = Fin 0\<rparr>
   \<and> gridPosition (mount P) = \<lparr>col_of = bg_col (getBackgroundPosition P (Fin 0) (Fin 0)),
                                 row_of = bg_row (getBackgroundPosition P (Fin 0) (Fin 0))\<rparr>
   \<and> backgroundPosition (mount P) = \<lparr>x_of = bg_x (getBackgroundPosition P (Fin 0) (Fin 0)),
                                       y_of = bg_y (getBackgroundPosition P (Fin 0) (Fin 0))\<rparr>
   \<and> gridPosition (mount (defaultProps (Fin 1100) h)) = \<lparr>col_of = Fin 5, row_of = Fin 5\<rparr>
   \<and> backgroundPosition (mount (defaultProps (Fin 1100) h)) = \<lparr>x_of = Fin (- 500), y_of = Fin (- 500)\<rparr>
   \<and> length (calls (run P (mount P) es)) \<le> length (filter mayCall es)"
proof -
  have a: "calls (mount P) = []" by (simp add: mount_def updatePupilPosition_calls initialState_def)
  have "length (calls (run P (mount P) es)) \<le> length (filter mayCall es)"
    using run_calls_le [of P "mount P" es] a by simp
  moreover have "gridPosition (mount (defaultProps (Fin 1100) h)) = \<lparr>col_of = Fin 5, row_of = Fin 5\<rparr>"
    by (simp add: model_defs)
  moreover have "backgroundPosition (mount (defaultProps (Fin 1100) h)) = \<lparr>x_of = Fin (- 500), y_of = Fin (- 500)\<rparr>"
    by (simp add: model_defs)
  moreover have "gridPosition (mount P) = \<lparr>col_of = bg_col (getBackgroundPosition P (Fin 0) (Fin 0)),
                                 row_of = bg_row (getBackgroundPosition P (Fin 0) (Fin 0))\<rparr>"
    by (simp add: mount_def updatePupilPosition_def Let_def)
  moreover have "backgroundPosition (mount P) = \<lparr>x_of = bg_x (getBackgroundPosition P (Fin 0) (Fin 0)),
                                       y_of = bg_y (getBackgroundPosition P (Fin 0) (Fin 0))\<rparr>"
    by (simp add: mount_def updatePupilPosition_def Let_def)
  moreover have "currentPupil (mount P) = \<lparr>x_of = Fin 0, y_of = Fin 0\<rparr>"
    by (simp add: mount_def)
  ultimately show ?thesis using a by simp
qed

subsection \<open>Pointer coordinates and the tracked region\<close>

lemma clamp_unit:
  assumes "n \<noteq> NaN"
  shows "\<exists>a. clamp n (Fin (- 1)) (Fin 1) = Fin a \<and> - 1 \<le> a \<and> a \<le> 1"
  using assms by (cases n) (auto simp: clamp_def)

lemma jdiv_half_not_NaN:
  assumes "w \<noteq> 0" "c \<noteq> NaN"
  shows "jdiv (jsub c (jadd (Fin l) (jdiv (Fin w) (Fin 2)))) (jdiv (Fin w) (Fin 2)) \<noteq> NaN"
  using assms by (cases c) (simp_all add: jsub_def)

lemma jdiv_half_not_NaN':
  assumes "w \<noteq> 0" "c \<noteq> NaN"
  shows "jdiv (jsub (jadd (Fin l) (jdiv (Fin w) (Fin 2))) c) (jdiv (Fin w) (Fin 2)) \<noteq> NaN"
  using assms by (cases c) (simp_all add: jsub_def)

lemma normalizedX_unit:
  assumes "rect_left r = Fin l" "rect_width r = Fin w" "w \<noteq> 0" "clientX \<noteq> NaN"
  shows "\<exists>a. normalizedX r clientX = Fin a \<and> - 1 \<le> a \<and> a \<le> 1"
  unfolding normalizedX_def Let_def assms(1,2)
  by (rule clamp_unit [OF jdiv_half_not_NaN [OF assms(3,4)]])

lemma normalizedY_unit:
  assumes "rect_top r = Fin t" "rect_height r = Fin h" "h \<noteq> 0" "clientY \<noteq> NaN"
  shows "\<exists>a. normalizedY r clientY = Fin a \<and> - 1 \<le> a \<and> a \<le> 1"
  unfolding normalizedY_def Let_def assms(1,2)
  by (rule clamp_unit [OF jdiv_half_not_NaN' [OF assms(3,4)]])

text \<open>
  C3, as stated, fails twice. A region of zero width and height does not disable
  the update: with the all-zero rectangle, a pointer at (10, 10) divides by zero
  into the infinities, which clamp to 1 and -1, so the pupil becomes (15, -15),
  \<open>onLooking\<close> is called and the state changes. And a NaN coordinate is not
  clamped: \<open>Math.min\<close> and \<open>Math.max\<close> pass it on, and the pupil is NaN.
\<close>

theorem pointer_disabled_region:
  "handlePointerMove stdProps (Some emptyRect) (Fin 10) (Fin 10) (mount stdProps) \<noteq> mount stdProps
   \<and> currentPupil (handlePointerMove stdProps (Some emptyRect) (Fin 10) (Fin 10) (mount stdProps))
       = \<lparr>x_of = Fin 15, y_of = Fin (- 15)\<rparr>
   \<and> calls (handlePointerMove stdProps (Some emptyRect) (Fin 10) (Fin 10) (mount stdProps))
       = [OnLooking]
   \<and> currentPupil (handlePointerMove stdProps (Some squareRect) NaN (Fin 50) (mount stdProps))
       = \<lparr>x_of = NaN, y_of = Fin 0\<rparr>"
proof -
  have a: "calls (handlePointerMove stdProps (Some emptyRect) (Fin 10) (Fin 10) (mount stdProps))
       = [OnLooking]"
    by (simp add: model_defs)
  have "calls (mount stdProps) = []" by (simp add: model_defs)
  then have "handlePointerMove stdProps (Some emptyRect) (Fin 10) (Fin 10) (mount stdProps) \<noteq> mount stdProps"
    using a by auto
  moreover have "currentPupil (handlePointerMove stdProps (Some emptyRect) (Fin 10) (Fin 10) (mount stdProps))
       = \<lparr>x_of = Fin 15, y_of = Fin (- 15)\<rparr>"
    by (simp add: model_defs)
  moreover have "currentPupil (handlePointerMove stdProps (Some squareRect) NaN (Fin 50) (mount stdProps))
       = \<lparr>x_of = NaN, y_of = Fin 0\<rparr>"
    by (simp add: model_defs)
  ultimately show ?thesis using a by simp
qed

lemma sizable_nonzero: "sizable a \<Longrightarrow> a \<noteq> 0"
  by (auto simp: sizable_def)

text \<open>
  C3, amended: when the tracked element is attached, its rectangle has a width
  and a height between \<open>1 / 2 ^ 500\<close> and \<open>2 ^ 500\<close> in magnitude and a left and
  a top edge of at most \<open>2 ^ 500\<close>, and the pupil constants are as moderate
  (\<open>minValue \<le> maxValue\<close>, both at most \<open>2 ^ 500\<close>, the step between
  \<open>1 / 2 ^ 500\<close> and \<open>2 ^ 500\<close>), every pointer position that is not NaN, finite
  or infinite, inside the element or far outside, is normalized to a number in
  \<open>[-1, 1]\<close> on each axis, and the pupil the call stores lies in
  \<open>[minValue, maxValue]\<close> on each axis; no call fails. When the element is
  missing the call changes nothing: no state update, no callback, no timer. The
  bounds keep the half sizes nonzero and every intermediate result finite in
  doubles as well.
\<close>

theorem pointer_clamped:
  assumes "minValue P = Fin lo" "maxValue P = Fin hi" "step P = Fin st" "lo \<le> hi"
    and "ordinary lo" "ordinary hi" "sizable st"
    and "rect_left r = Fin l" "rect_top r = Fin t"
    and "rect_width r = Fin w" "rect_height r = Fin h"
    and "ordinary l" "ordinary t" "sizable w" "sizable h"
    and "clientX \<noteq> NaN" "clientY \<noteq> NaN"
  shows "(\<exists>nx ny px py.
            normalizedX r clientX = Fin nx \<and> - 1 \<le> nx \<and> nx \<le> 1
          \<and> normalizedY r clientY = Fin ny \<and> - 1 \<le> ny \<and> ny \<le> 1
          \<and> currentPupil (handlePointerMove P (Some r) clientX clientY s)
               = \<lparr>x_of = Fin px, y_of = Fin py\<rparr>
          \<and> lo \<le> px \<and> px \<le> hi \<and> lo \<le> py \<and> py \<le> hi)
       \<and> handlePointerMove P None clientX clientY s = s"
proof -
  have st: "st \<noteq> 0" and w: "w \<noteq> 0" and h: "h \<noteq> 0"
    using \<open>sizable st\<close> \<open>sizable w\<close> \<open>sizable h\<close> by (simp_all add: sizable_nonzero)
  obtain nx where nx: "normalizedX r clientX = Fin nx" "- 1 \<le> nx" "nx \<le> 1"
    using normalizedX_unit [OF \<open>rect_left r = Fin l\<close> \<open>rect_width r = Fin w\<close> w \<open>clientX \<noteq> NaN\<close>]
    by blast
  obtain ny where ny: "normalizedY r clientY = Fin ny" "- 1 \<le> ny" "ny \<le> 1"
    using normalizedY_unit [OF \<open>rect_top r = Fin t\<close> \<open>rect_height r = Fin h\<close> h \<open>clientY \<noteq> NaN\<close>]
    by blast
  obtain px where px: "quantizeToGrid P (Fin nx) = Fin px" "lo \<le> px" "px \<le> hi"
    using quantizeToGrid_range [OF assms(1-3) st \<open>lo \<le> hi\<close>] by blast
  obtain py where py: "quantizeToGrid P (Fin ny) = Fin py" "lo \<le> py" "py \<le> hi"
    using quantizeToGrid_range [OF assms(1-3) st \<open>lo \<le> hi\<close>] by blast
  have "currentPupil (handlePointerMove P (Some r) clientX clientY s)
          = \<lparr>x_of = Fin px, y_of = Fin py\<rparr>"
    by (simp add: handlePointerMove_def Let_def nx(1) ny(1) px(1) py(1))
  moreover have "handlePointerMove P None clientX clientY s = s"
    by (simp add: handlePointerMove_def)
  ultimately show ?thesis using nx ny px py by blast
qed

text \<open>The defaults, the pointer at \<open>(+\<infinity>, 5000)\<close> over the 100 by 100 element.\<close>

theorem pointer_clamped_witness:
  "(\<exists>nx ny px py.
       normalizedX squareRect PInf = Fin nx \<and> - 1 \<le> nx \<and> nx \<le> 1
     \<and> normalizedY squareRect (Fin 5000) = Fin ny \<and> - 1 \<le> ny \<and> ny \<le> 1
     \<and> currentPupil (handlePointerMove stdProps (Some squareRect) PInf (Fin 5000) (mount stdProps))
          = \<lparr>x_of = Fin px, y_of = Fin py\<rparr>
     \<and> - 15 \<le> px \<and> px \<le> 15 \<and> - 15 \<le> py \<and> py \<le> 15)
   \<and> handlePointerMove stdProps None PInf (Fin 5000) (mount stdProps) = mount stdProps"
  by (rule pointer_clamped [of _ _ _ 3 _ 0 0 100 100])
     (simp_all add: stdProps_def defaultProps_def squareRect_def ordinary_def sizable_def)

section \<open>EmailLink: the round trip\<close>

subsection \<open>Code units and bytes\<close>

lemma unat_byte: "unat (a :: 8 word) < 256"
  using unsigned_less [of a, where ?'a = nat] by simp

lemma unat_unit: "unat (a :: 16 word) < 65536"
  using unsigned_less [of a, where ?'a = nat] by simp

lemma unat_of_nat_byte: "n < 256 \<Longrightarrow> unat (of_nat n :: 8 word) = n"
  by (simp add: unat_of_nat)

lemma unat_of_nat_unit: "n < 65536 \<Longrightarrow> unat (of_nat n :: 16 word) = n"
  by (simp add: unat_of_nat)

lemma xor_nat_below:
  fixes a b :: nat
  assumes "a < 2 ^ n" "b < 2 ^ n"
  shows "a XOR b < 2 ^ n"
proof -
  have "take_bit n (a XOR b) = take_bit n a XOR take_bit n b" by (rule take_bit_xor)
  also have "\<dots> = a XOR b"
    by (simp only: take_bit_nat_eq_self [OF assms(1)] take_bit_nat_eq_self [OF assms(2)])
  finally show ?thesis by (simp only: take_bit_nat_eq_self_iff)
qed

lemma unat_xor_narrow:
  fixes a b :: "16 word"
  assumes "unat a < 256" "unat b < 256"
  shows "unat (a XOR b) < 256"
proof -
  have "unat (a XOR b) = unat a XOR unat b" by (rule unsigned_xor_eq)
  moreover have "unat a XOR unat b < 2 ^ 8" using assms by (intro xor_nat_below) simp_all
  ultimately show ?thesis by simp
qed

lemma ucast_ucast_narrow:
  fixes c :: "16 word"
  assumes "unat c < 256"
  shows "(ucast (ucast c :: 8 word) :: 16 word) = c"
proof -
  have "unat (ucast c :: 8 word) = take_bit 8 (unat c)"
    using unsigned_ucast_eq [of c, where ?'a = nat and ?'c = 8] by simp
  then have a: "unat (ucast c :: 8 word) = unat c"
    using assms by (simp add: take_bit_nat_eq_self)
  have "unat (ucast (ucast c :: 8 word) :: 16 word) = take_bit 16 (unat (ucast c :: 8 word))"
    using unsigned_ucast_eq [of "ucast c :: 8 word", where ?'a = nat and ?'c = 16] by simp
  then have "unat (ucast (ucast c :: 8 word) :: 16 word) = unat c"
    unfolding a using assms by (simp add: take_bit_nat_eq_self)
  then show ?thesis by (simp add: word_unat_eq_iff)
qed

lemma xor_cancel: "((a :: 16 word) XOR k) XOR k = a"
  by (simp add: xor.assoc)

subsection \<open>ROT13 and the exclusive-or loop\<close>

text \<open>ROT13 is its own inverse: thirteen places twice is a full turn of 26.\<close>

lemma rot13_twice:
  fixes k :: nat
  assumes "k < 26"
  shows "((k + 13) mod 26 + 13) mod 26 = k"
proof -
  have "((k + 13) mod 26 + 13) mod 26 = (k + 13 + 13) mod 26"
    by (simp only: mod_add_left_eq)
  also have "\<dots> = (k + 26) mod 26" by (simp add: add.assoc)
  also have "\<dots> = k" using assms by simp
  finally show ?thesis .
qed

lemma rot13Char_involution: "rot13Char (rot13Char c) = c"
proof -
  let ?n = "unat c"
  consider "65 \<le> ?n \<and> ?n \<le> 90" | "97 \<le> ?n \<and> ?n \<le> 122"
    | "\<not> (65 \<le> ?n \<and> ?n \<le> 90) \<and> \<not> (97 \<le> ?n \<and> ?n \<le> 122)" by blast
  then show ?thesis
  proof cases
    case 1
    let ?m = "(?n - 65 + 13) mod 26 + 65"
    have m: "65 \<le> ?m \<and> ?m \<le> 90" by simp
    have r1: "rot13Char c = of_nat ?m" using 1 by (simp add: rot13Char_def)
    have um: "unat (of_nat ?m :: 16 word) = ?m" by (rule unat_of_nat_unit) simp
    have k: "?n - 65 < 26" using 1 by arith
    have "(?m - 65 + 13) mod 26 = ?n - 65" using rot13_twice [OF k] by simp
    then have "(?m - 65 + 13) mod 26 + 65 = ?n - 65 + 65" by (rule arg_cong)
    also have "\<dots> = ?n" using 1 by simp
    finally have inv: "(?m - 65 + 13) mod 26 + 65 = ?n" .
    have "rot13Char (of_nat ?m) = of_nat ((?m - 65 + 13) mod 26 + 65)"
      unfolding rot13Char_def um using m by (simp add: Let_def)
    then show ?thesis unfolding r1 inv by simp
  next
    case 2
    let ?m = "(?n - 97 + 13) mod 26 + 97"
    have m: "97 \<le> ?m \<and> ?m \<le> 122" by simp
    have r1: "rot13Char c = of_nat ?m" using 2 by (simp add: rot13Char_def)
    have um: "unat (of_nat ?m :: 16 word) = ?m" by (rule unat_of_nat_unit) simp
    have k: "?n - 97 < 26" using 2 by arith
    have "(?m - 97 + 13) mod 26 = ?n - 97" using rot13_twice [OF k] by simp
    then have "(?m - 97 + 13) mod 26 + 97 = ?n - 97 + 97" by (rule arg_cong)
    also have "\<dots> = ?n" using 2 by simp
    finally have inv: "(?m - 97 + 13) mod 26 + 97 = ?n" .
    have "rot13Char (of_nat ?m) = of_nat ((?m - 97 + 13) mod 26 + 97)"
      unfolding rot13Char_def um using m by (simp add: Let_def add.commute)
    then show ?thesis unfolding r1 inv by simp
  next
    case 3
    then have "rot13Char c = c" by (auto simp: rot13Char_def Let_def)
    then show ?thesis by simp
  qed
qed

lemma rot13_involution: "rot13 (rot13 str) = str"
  by (simp add: rot13_def rot13Char_involution map_idI)

text \<open>The loop computes the exclusive or position by position.\<close>

lemma xorLoop_from:
  "i \<le> length str \<Longrightarrow>
   xorLoop str key i acc = acc @ map (\<lambda>j. (str ! j) XOR keyCodeAt key j) [i..<length str]"
proof (induction str key i acc rule: xorLoop.induct)
  case (1 str key i acc)
  show ?case
  proof (cases "i < length str")
    case True
    then have "xorLoop str key i acc = xorLoop str key (i + 1) (acc @ [(str ! i) XOR keyCodeAt key i])"
      by (subst xorLoop.simps) simp
    also have "\<dots> = (acc @ [(str ! i) XOR keyCodeAt key i])
        @ map (\<lambda>j. (str ! j) XOR keyCodeAt key j) [i + 1..<length str]"
      using True by (intro "1.IH") simp_all
    also have "\<dots> = acc @ map (\<lambda>j. (str ! j) XOR keyCodeAt key j) [i..<length str]"
      using True by (simp add: upt_conv_Cons)
    finally show ?thesis .
  next
    case False
    then have "i = length str" using "1.prems" by simp
    then show ?thesis by (subst xorLoop.simps) simp
  qed
qed

lemma xorLoop_map:
  "xorLoop str key 0 [] = map (\<lambda>j. (str ! j) XOR keyCodeAt key j) [0..<length str]"
  using xorLoop_from [of 0 str key "[]"] by simp

subsection \<open>Base64\<close>

text \<open>Three bytes and their four 6-bit groups determine each other.\<close>

lemma sextet_join_hi:
  fixes x y :: nat
  assumes "y < 256"
  shows "x div 4 * 4 + (x mod 4 * 16 + y div 16) div 16 = x"
proof -
  have "y div 16 < 16" using assms by simp
  then have "(x mod 4 * 16 + y div 16) div 16 = x mod 4" by simp
  then show ?thesis by simp
qed

lemma sextet_join_mid:
  fixes x y z :: nat
  assumes "y < 256" "z < 256"
  shows "(x mod 4 * 16 + y div 16) mod 16 * 16 + (y mod 16 * 4 + z div 64) div 4 = y"
proof -
  have a: "y div 16 < 16" using assms by simp
  then have "(x mod 4 * 16 + y div 16) mod 16 = y div 16" by simp
  moreover have "z div 64 < 4" using assms by simp
  then have "(y mod 16 * 4 + z div 64) div 4 = y mod 16" by simp
  ultimately show ?thesis by simp
qed

lemma sextet_join_lo:
  fixes y z :: nat
  assumes "z < 256"
  shows "(y mod 16 * 4 + z div 64) mod 4 * 64 + z mod 64 = z"
proof -
  have "z div 64 < 4" using assms by simp
  then have "(y mod 16 * 4 + z div 64) mod 4 = z div 64" by simp
  then show ?thesis by simp
qed

lemma sextet_join_mid2:
  fixes x y :: nat
  assumes "y < 256"
  shows "(x mod 4 * 16 + y div 16) mod 16 * 16 + (y mod 16 * 4) div 4 = y"
  using sextet_join_mid [of y 0 x] assms by simp

lemma sextet_join_hi1:
  fixes x :: nat
  shows "x div 4 * 4 + (x mod 4 * 16) div 16 = x"
  using sextet_join_hi [of 0 x] by simp

lemma toBase64_split: "toBase64 bs = map b64Char (sextetsOf bs) @ paddingOf bs"
  by (induction bs rule: toBase64.induct) simp_all

lemma sextet_below:
  fixes x y :: nat
  assumes "x < 256" "y < 256"
  shows "x div 4 < 64" and "x mod 4 * 16 < 64" and "x mod 4 * 16 + y div 16 < 64"
    and "x mod 16 * 4 < 64" and "x mod 16 * 4 + y div 64 < 64"
proof -
  have a: "x mod 4 < 4" and b: "y div 16 < 16" and c: "x mod 16 < 16" and d: "y div 64 < 4"
    using assms by simp_all
  show "x div 4 < 64" using assms by simp
  show "x mod 4 * 16 < 64" using a by linarith
  show "x mod 4 * 16 + y div 16 < 64" using a b by linarith
  show "x mod 16 * 4 < 64" using c by linarith
  show "x mod 16 * 4 + y div 64 < 64" using c d by linarith
qed

lemma sextetsOf_below: "list_all (\<lambda>n. n < 64) (sextetsOf bs)"
proof (induction bs rule: sextetsOf.induct)
  case 1
  show ?case by simp
next
  case (2 a)
  show ?case using sextet_below [OF unat_byte [of a] unat_byte [of a]] by simp
next
  case (3 a b)
  show ?case
    using sextet_below [OF unat_byte [of a] unat_byte [of b]]
      sextet_below [OF unat_byte [of b] unat_byte [of b]] by simp
next
  case (4 a b c rest)
  then show ?case
    using sextet_below [OF unat_byte [of a] unat_byte [of b]]
      sextet_below [OF unat_byte [of b] unat_byte [of c]] by simp
qed

lemma length_sextetsOf: "length (sextetsOf bs) mod 4 \<noteq> 1"
  by (induction bs rule: sextetsOf.induct) simp_all

lemma length_toBase64: "length (toBase64 bs) mod 4 = 0"
  by (induction bs rule: toBase64.induct) simp_all

lemma paddingOf_cases: "paddingOf bs = [] \<or> paddingOf bs = [61] \<or> paddingOf bs = [61, 61]"
  by (induction bs rule: paddingOf.induct) simp_all

lemma b64Index_b64Char:
  assumes "n < 64"
  shows "b64Index (b64Char n) = Some n"
proof -
  consider "n < 26" | "26 \<le> n" "n < 52" | "52 \<le> n" "n < 62" | "n = 62" | "n = 63"
    using assms by linarith
  then show ?thesis
  proof cases
    case 1
    then have "unat (of_nat (65 + n) :: 16 word) = 65 + n" by (intro unat_of_nat_unit) simp
    then show ?thesis using 1 by (simp add: b64Index_def b64Char_def)
  next
    case 2
    then have "unat (of_nat (97 + (n - 26)) :: 16 word) = 97 + (n - 26)"
      by (intro unat_of_nat_unit) simp
    then show ?thesis using 2 by (auto simp: b64Index_def b64Char_def Let_def)
  next
    case 3
    then have "unat (of_nat (48 + (n - 52)) :: 16 word) = 48 + (n - 52)"
      by (intro unat_of_nat_unit) simp
    then show ?thesis using 3 by (auto simp: b64Index_def b64Char_def Let_def)
  next
    case 4
    then show ?thesis by (simp add: b64Index_def b64Char_def)
  next
    case 5
    then show ?thesis by (simp add: b64Index_def b64Char_def)
  qed
qed

lemma b64Index_pad: "b64Index 61 = None"
  by (simp add: b64Index_def)

lemma b64Index_whitespace: "isAsciiWhitespace c \<Longrightarrow> b64Index c = None"
  by (auto simp: isAsciiWhitespace_def b64Index_def)

lemma b64Char_plain:
  assumes "n < 64"
  shows "b64Char n \<noteq> 61" and "\<not> isAsciiWhitespace (b64Char n)"
  using b64Index_b64Char [OF assms] b64Index_pad b64Index_whitespace [of "b64Char n"] by auto

lemma those_b64Index:
  assumes "list_all (\<lambda>n. n < 64) ns"
  shows "those (map b64Index (map b64Char ns)) = Some ns"
  using assms by (induction ns) (simp_all add: b64Index_b64Char)

lemma no_whitespace:
  assumes "list_all (\<lambda>n. n < 64) ns"
  shows "filter (\<lambda>c. \<not> isAsciiWhitespace c) (map b64Char ns) = map b64Char ns"
  using assms by (induction ns) (simp_all add: b64Char_plain)

lemma no_pad_last:
  assumes "list_all (\<lambda>n. n < 64) ns" "ns \<noteq> []"
  shows "last (map b64Char ns) \<noteq> 61"
proof -
  have "last (map b64Char ns) = b64Char (last ns)" using assms(2) by (simp add: last_map)
  moreover have "last ns < 64" using assms by (simp add: list_all_iff)
  ultimately show ?thesis using b64Char_plain(1) by simp
qed

lemma stripPadding_toBase64: "stripPadding (toBase64 bs) = map b64Char (sextetsOf bs)"
proof -
  let ?body = "map b64Char (sextetsOf bs)"
  have len: "length (?body @ paddingOf bs) mod 4 = 0"
    using length_toBase64 [of bs] by (simp only: toBase64_split)
  have body: "sextetsOf bs \<noteq> [] \<Longrightarrow> last ?body \<noteq> 61"
    by (rule no_pad_last [OF sextetsOf_below])
  consider "paddingOf bs = []" | "paddingOf bs = [61]" | "paddingOf bs = [61, 61]"
    using paddingOf_cases by blast
  then have "stripPadding (?body @ paddingOf bs) = ?body"
  proof cases
    case 1
    then show ?thesis using body by (cases "sextetsOf bs = []") (simp_all add: stripPadding_def)
  next
    case 2
    have "sextetsOf bs \<noteq> []" using 2 by (cases bs rule: paddingOf.cases) simp_all
    then show ?thesis using 2 len body by (simp add: stripPadding_def)
  next
    case 3
    have "stripPadding (?body @ [61, 61]) = ?body"
      using len unfolding 3 by (simp add: stripPadding_def butlast_append)
    then show ?thesis using 3 by simp
  qed
  then show ?thesis by (simp only: toBase64_split)
qed

lemma filter_toBase64:
  "filter (\<lambda>c. \<not> isAsciiWhitespace c) (toBase64 bs) = toBase64 bs"
proof -
  have "filter (\<lambda>c. \<not> isAsciiWhitespace c) (paddingOf bs) = paddingOf bs"
    using paddingOf_cases [of bs] by (auto simp: isAsciiWhitespace_def)
  then show ?thesis
    by (simp add: toBase64_split no_whitespace [OF sextetsOf_below])
qed

lemma decodeSextets_sextetsOf: "decodeSextets (sextetsOf bs) = bs"
proof (induction bs rule: sextetsOf.induct)
  case 1
  show ?case by simp
next
  case (2 a)
  show ?case by (simp add: sextet_join_hi1)
next
  case (3 a b)
  show ?case using unat_byte [of b]
    by (simp add: sextet_join_hi sextet_join_mid2)
next
  case (4 a b c rest)
  then show ?case using unat_byte [of b] unat_byte [of c]
    by (simp add: sextet_join_hi sextet_join_mid sextet_join_lo)
qed

lemma atob_toBase64: "atob (toBase64 bs) = Inr (binaryString bs)"
  unfolding atob_def Let_def filter_toBase64 stripPadding_toBase64 length_map
    those_b64Index [OF sextetsOf_below]
  using length_sextetsOf [of bs] by (simp add: decodeSextets_sextetsOf)

subsection \<open>The handler undoes the script\<close>

lemma keyCodeAt_latin1:
  assumes "latin1 key"
  shows "unat (keyCodeAt key j) < 256"
proof (cases "key = []")
  case True
  then show ?thesis by (simp add: keyCodeAt_def)
next
  case False
  then have "key ! (j mod length key) \<in> set key" by simp
  then show ?thesis using assms False by (simp add: keyCodeAt_def latin1_def list_all_iff)
qed

lemma xorLoop_latin1:
  assumes "latin1 str" "latin1 key"
  shows "latin1 (xorLoop str key 0 [])"
proof -
  have "unat ((str ! j) XOR keyCodeAt key j) < 256" if "j < length str" for j
  proof -
    have "unat (str ! j) < 256" using assms(1) that by (simp add: latin1_def list_all_length)
    then show ?thesis by (rule unat_xor_narrow [OF _ keyCodeAt_latin1 [OF assms(2)]])
  qed
  then show ?thesis by (simp add: xorLoop_map latin1_def list_all_iff)
qed

lemma binaryString_latin1Bytes:
  assumes "latin1 str"
  shows "binaryString (latin1Bytes str) = str"
  using assms unfolding binaryString_def latin1Bytes_def latin1_def
  by (induction str) (simp_all add: ucast_ucast_narrow)

lemma xorLoop_twice: "xorLoop (xorLoop str key 0 []) key 0 [] = str"
proof -
  let ?enc = "xorLoop str key 0 []"
  have len: "length ?enc = length str" by (simp add: xorLoop_map)
  have "xorLoop ?enc key 0 [] = map (\<lambda>j. (?enc ! j) XOR keyCodeAt key j) [0..<length str]"
    by (simp only: xorLoop_map [of ?enc] len)
  also have "\<dots> = map (\<lambda>j. str ! j) [0..<length str]"
    by (rule map_cong) (simp_all add: xorLoop_map xor_cancel)
  also have "\<dots> = str" by (rule map_nth)
  finally show ?thesis .
qed

text \<open>With both arguments given and non-empty, the script prints the two outputs.\<close>

lemma obfuscateEmail_outputs:
  assumes "email \<noteq> []" "key \<noteq> []"
  shows "obfuscateEmail (Some email) (Some key) = Inr (obfuscate email key)"
  using assms by (simp add: obfuscateEmail_def)

text \<open>
  C10, as stated for every email string, fails: the script's
  \<open>Buffer.from(encrypted, 'binary')\<close> keeps one byte of each code unit. For the
  email \<open>\<euro>\<close> (U+20AC) and the key \<open>a\<close>, whose code unit is below 256, the script
  prints the key \<open>n\<close> and the data \<open>zQ==\<close>, and the handler decodes them to
  \<open>mailto:\<not>\<close> (U+00AC), not to \<open>mailto:\<euro>\<close>.
\<close>

theorem email_wide_char:
  "obfuscate [0x20AC] [0x61] = ([0x6E], [122, 81, 61, 61])
   \<and> handleClick [122, 81, 61, 61] [0x6E] = Inr (mailto @ [0xAC])
   \<and> latin1 [0x61]
   \<and> mailto @ [0xAC] \<noteq> mailto @ [0x20AC]"
  by (simp add: obfuscate_def rot13_def rot13Char_def xorLoop.simps keyCodeAt_def latin1Bytes_def
      b64Char_def handleClick_def atob_def stripPadding_def isAsciiWhitespace_def b64Index_def
      binaryString_def latin1_def)

text \<open>
  C10, amended: for every email string and every non-empty key string, both
  consisting of code units in 0..255, the handler applied to the script's two
  outputs (ROT13 the key, Base64-decode the data, exclusive or with the key)
  yields \<open>mailto:\<close> followed by the original email.
\<close>

theorem email_roundtrip:
  assumes "key \<noteq> []" "latin1 email" "latin1 key"
  shows "handleClick (snd (obfuscate email key)) (fst (obfuscate email key)) = Inr (mailto @ email)"
proof -
  let ?enc = "xorLoop email key 0 []"
  have out: "obfuscate email key = (rot13 key, toBase64 (latin1Bytes ?enc))"
    by (simp add: obfuscate_def)
  have "handleClick (toBase64 (latin1Bytes ?enc)) (rot13 key)
          = Inr (mailto @ xorLoop (binaryString (latin1Bytes ?enc)) key 0 [])"
    by (simp add: handleClick_def rot13_involution atob_toBase64)
  also have "binaryString (latin1Bytes ?enc) = ?enc"
    by (rule binaryString_latin1Bytes [OF xorLoop_latin1 [OF assms(2,3)]])
  also have "xorLoop ?enc key 0 [] = email" by (rule xorLoop_twice)
  finally show ?thesis by (simp add: out)
qed

text \<open>The email \<open>j@w.de\<close> under the key \<open>Key1\<close>.\<close>

theorem email_roundtrip_witness:
  "handleClick (snd (obfuscate [106, 64, 119, 46, 100, 101] [75, 101, 121, 49]))
     (fst (obfuscate [106, 64, 119, 46, 100, 101] [75, 101, 121, 49]))
     = Inr (mailto @ [106, 64, 119, 46, 100, 101])"
  by (rule email_roundtrip) (simp_all add: latin1_def)

end
